theory Spec2Isabelle
  imports Main "HOL-Library.Sublist"
begin

section \<open>Python values\<close>

text \<open>
  A Python \<open>str\<close> is a sequence of Unicode code points, so a text is a list of
  code points; \<open>str ''abc''\<close> writes an ASCII literal. Lengths, substring tests and
  replacement then count what Python counts.
\<close>

type_synonym pystr = "nat list"

definition str :: "string \<Rightarrow> pystr" where
  "str s = map of_char s"

text \<open>
  The exceptions the code can raise. Every \<open>assert cond, ValueError(msg)\<close> of the
  source raises \<open>AssertionError\<close> carrying that message; the tag says which assertion
  it was (assertions are taken as enabled, as they are unless Python runs with -O).
\<close>

datatype assert_msg =
    TableDimsNotPositive      \<comment> \<open>content.py 133: rows or columns not above 0\<close>
  | DataFewerThanCells        \<comment> \<open>content.py 134: fewer data items than cells\<close>
  | ParagraphIndexInvalid     \<comment> \<open>element.py 82, 107: paragraph index not in range\<close>
  | TableIndexInvalid         \<comment> \<open>element.py 129: table index not in range\<close>
  | RowIndexOutOfRange        \<comment> \<open>part.py 203: 'row_index out of range'\<close>
  | ColumnIndexOutOfRange     \<comment> \<open>part.py 219: 'column_index out of range'\<close>

datatype error =
    AssertionError assert_msg
  | TypeError
  | AttributeError
  | ValueError
  | IndexError
  | KeyError
  | ZeroDivisionError
  | IOError
  | PackageNotFoundError

text \<open>\<open>xs[i]\<close> on a Python sequence: a negative index counts from the end.\<close>

definition py_getitem :: "'a list \<Rightarrow> int \<Rightarrow> error + 'a" where
  "py_getitem xs i =
     (if 0 \<le> i \<and> i < int (length xs) then Inr (xs ! nat i)
      else if i < 0 \<and> 0 \<le> int (length xs) + i then Inr (xs ! nat (int (length xs) + i))
      else Inl IndexError)"

text \<open>
  \<open>key in text\<close> on strings is the substring test, and \<open>text.replace(old, new)\<close>
  replaces the occurrences of \<open>old\<close> from left to right, without overlap; an
  empty \<open>old\<close> matches before every character and at the end.
\<close>

fun py_in :: "'a list \<Rightarrow> 'a list \<Rightarrow> bool" where
  "py_in key [] = (key = [])"
| "py_in key (c # cs) = (prefix key (c # cs) \<or> py_in key cs)"

function py_replace :: "'a list \<Rightarrow> 'a list \<Rightarrow> 'a list \<Rightarrow> 'a list" where
  "py_replace [] old new = (if old = [] then new else [])"
| "py_replace (c # cs) old new =
     (if old = [] then new @ c # py_replace cs old new
      else if prefix old (c # cs)
        then new @ py_replace (drop (length old) (c # cs)) old new
      else c # py_replace cs old new)"
  by pat_completeness auto
termination
  by (relation "measure (\<lambda>(text, old, new). length text)") auto

text \<open>
  The values a mapping can hold, as far as \<open>str(value)\<close> is modelled: strings,
  integers, booleans and \<open>None\<close>.
\<close>

datatype pyval = PStr pystr | PInt int | PBool bool | PNone

function dec_digits :: "nat \<Rightarrow> pystr" where
  "dec_digits n = (if n < 10 then [48 + n] else dec_digits (n div 10) @ [48 + n mod 10])"
  by pat_completeness auto
termination
  by (relation "measure id") auto

fun py_str :: "pyval \<Rightarrow> pystr" where
  "py_str (PStr s) = s"
| "py_str (PInt i) = (if i < 0 then 45 # dec_digits (nat (- i)) else dec_digits (nat i))"
| "py_str (PBool b) = (if b then str ''True'' else str ''False'')"
| "py_str PNone = str ''None''"

text \<open>
  A \<open>dict\<close> with string keys: its items in iteration order, each key once.
  Iterating the dict yields the keys in that order, and \<open>d.get(key)\<close> is the value
  of the key, or \<open>None\<close> when the key is missing.
\<close>

type_synonym pydict = "(pystr \<times> pyval) list"

definition dict_keys :: "pydict \<Rightarrow> pystr list" where
  "dict_keys d = map fst d"

definition dict_get :: "pydict \<Rightarrow> pystr \<Rightarrow> pyval" where
  "dict_get d key = (case map_of d key of None \<Rightarrow> PNone | Some v \<Rightarrow> v)"

section \<open>The document object model\<close>

text \<open>
  The document tree is owned by the python-docx library, which the repository calls
  and does not contain. The tree below is the data model of the specification:
  a document is a body of paragraphs and tables, a paragraph a sequence of runs, a
  table a grid of cells, a cell a sequence of paragraphs.
\<close>

type_synonym rgb = "int \<times> int \<times> int"

text \<open>
  \<open>r_rFonts\<close> holds the attributes of the run's \<open>w:rFonts\<close> element, and is
  None when the run has no such element.
\<close>

record run =
  r_text :: pystr
  r_rFonts :: "(pystr \<times> pystr) list option"
  r_size :: "int option"
  r_color :: "rgb option"
  r_bold :: "bool option"
  r_italic :: "bool option"

record Paragraph =
  p_runs :: "run list"
  p_style :: "pystr option"

datatype cell = Cell (paragraphs: "Paragraph list")

text \<open>
  \<open>t_grid_cols\<close> is the number of grid columns, \<open>len(table.columns)\<close>;
  \<open>t_trs\<close> holds the rows in document order, each with its cells.
\<close>

record table =
  t_grid_cols :: nat
  t_trs :: "cell list list"
  t_style :: "pystr option"

datatype block = BParagraph Paragraph | BTable table

record document =
  body :: "block list"

text \<open>
  A row and a column are views on their table: the proxy object holds the table and
  an index, and computes its cells from the table's cells when asked.
\<close>

datatype row = Row table nat

datatype column = Column table nat

text \<open>
  \<open>table._cells\<close>: the cells in row-major order (a list; no cell of the model is
  merged). \<open>table.row_cells(i)\<close> is the slice \<open>_cells[i*c : i*c + c]\<close> and
  \<open>table.column_cells(j)\<close> picks the indices \<open>range(j, len(_cells), c)\<close>, for
  \<open>c\<close> grid columns.
\<close>

definition Table_cells :: "table \<Rightarrow> cell list" where
  "Table_cells t = concat (t_trs t)"

definition Table_row_cells :: "table \<Rightarrow> nat \<Rightarrow> cell list" where
  "Table_row_cells t i = take (t_grid_cols t) (drop (i * t_grid_cols t) (Table_cells t))"

definition Table_column_cells :: "table \<Rightarrow> nat \<Rightarrow> cell list" where
  "Table_column_cells t j =
     [Table_cells t ! idx. idx \<leftarrow> [0..<length (Table_cells t)],
        j \<le> idx \<and> (idx - j) mod t_grid_cols t = 0]"

definition Table_rows :: "table \<Rightarrow> row list" where
  "Table_rows t = map (Row t) [0..<length (t_trs t)]"

definition Table_columns :: "table \<Rightarrow> column list" where
  "Table_columns t = map (Column t) [0..<t_grid_cols t]"

fun Row_cells :: "row \<Rightarrow> cell list" where
  "Row_cells (Row t i) = Table_row_cells t i"

fun Column_cells :: "column \<Rightarrow> cell list" where
  "Column_cells (Column t j) = Table_column_cells t j"

text \<open>
  What the library does when the code below creates or rewrites part of the tree.
  A new run carries only its text; a new table cell holds one empty paragraph;
  \<open>cell.text = s\<close> replaces the cell's content by one paragraph with one run of
  text \<open>s\<close>; \<open>paragraph.text\<close> joins the texts of the runs and \<open>cell.text\<close> joins
  the texts of the paragraphs with a newline (code point 10).
\<close>

definition new_run :: "pystr \<Rightarrow> run" where
  "new_run s = \<lparr>r_text = s, r_rFonts = None, r_size = None, r_color = None,
     r_bold = None, r_italic = None\<rparr>"

definition empty_paragraph :: Paragraph where
  "empty_paragraph = \<lparr>p_runs = [], p_style = None\<rparr>"

definition new_cell :: cell where
  "new_cell = Cell [empty_paragraph]"

definition Cell_set_text :: "pystr \<Rightarrow> cell \<Rightarrow> cell" where
  "Cell_set_text s c = Cell [\<lparr>p_runs = [new_run s], p_style = None\<rparr>]"

definition Paragraph_text :: "Paragraph \<Rightarrow> pystr" where
  "Paragraph_text p = concat (map r_text (p_runs p))"

fun py_join :: "'a list \<Rightarrow> 'a list list \<Rightarrow> 'a list" where
  "py_join sep [] = []"
| "py_join sep [x] = x"
| "py_join sep (x # y # ys) = x @ sep @ py_join sep (y # ys)"

definition Cell_text :: "cell \<Rightarrow> pystr" where
  "Cell_text c = py_join [10] (map Paragraph_text (paragraphs c))"

text \<open>
  A cell object is a reference into its table: the model names it by its index in
  \<open>table._cells\<close>, and a write through the reference rewrites that cell of the table.
\<close>

fun update_nth_cell :: "cell list list \<Rightarrow> nat \<Rightarrow> (cell \<Rightarrow> cell) \<Rightarrow> cell list list" where
  "update_nth_cell [] k f = []"
| "update_nth_cell (r # rs) k f =
     (if k < length r then r[k := f (r ! k)] # rs
      else r # update_nth_cell rs (k - length r) f)"

definition Table_update_cell :: "table \<Rightarrow> nat \<Rightarrow> (cell \<Rightarrow> cell) \<Rightarrow> table" where
  "Table_update_cell t k f = t\<lparr>t_trs := update_nth_cell (t_trs t) k f\<rparr>"

text \<open>
  \<open>table.add_row()\<close> appends a row with one new cell per grid column and returns
  it; \<open>document.add_table(rows, cols, style)\<close> appends a table of new cells at the
  end of the body and returns it. A table object is named by its index in the body.
\<close>

definition Table_add_row :: "table \<Rightarrow> table" where
  "Table_add_row t = t\<lparr>t_trs := t_trs t @ [replicate (t_grid_cols t) new_cell]\<rparr>"

definition Document_add_table :: "document \<Rightarrow> nat \<Rightarrow> nat \<Rightarrow> pystr option \<Rightarrow> nat \<times> document" where
  "Document_add_table d rows cols style =
     (length (body d),
      d\<lparr>body := body d @
         [BTable \<lparr>t_grid_cols = cols, t_trs = replicate rows (replicate cols new_cell),
                  t_style = style\<rparr>]\<rparr>)"

fun block_update_table :: "(table \<Rightarrow> table) \<Rightarrow> block \<Rightarrow> block" where
  "block_update_table f (BTable t) = BTable (f t)"
| "block_update_table f (BParagraph p) = BParagraph p"

definition Document_update_table :: "document \<Rightarrow> nat \<Rightarrow> (table \<Rightarrow> table) \<Rightarrow> document" where
  "Document_update_table d tref f = d\<lparr>body := (body d)[tref := block_update_table f (body d ! tref)]\<rparr>"

fun Document_table :: "document \<Rightarrow> nat \<Rightarrow> table option" where
  "Document_table d tref =
     (if tref < length (body d)
      then (case body d ! tref of BTable t \<Rightarrow> Some t | BParagraph p \<Rightarrow> None)
      else None)"

text \<open>
  A paragraph object is a reference into the document: a top-level paragraph is named
  by its index in the body, a paragraph of a table cell by the table's index in the
  body, the cell's index in \<open>table._cells\<close> and its own index in the cell. A run
  object is named by its paragraph and its index among the paragraph's runs.
\<close>

datatype para_ref = TopPara nat | CellPara nat nat nat

datatype run_ref = RunRef para_ref nat

text \<open>
  \<open>document.paragraphs\<close> and \<open>document.tables\<close>: the paragraphs (tables) that are
  children of the body, in document order.
\<close>

fun paragraph_indices :: "nat \<Rightarrow> block list \<Rightarrow> nat list" where
  "paragraph_indices i [] = []"
| "paragraph_indices i (BParagraph p # bs) = i # paragraph_indices (Suc i) bs"
| "paragraph_indices i (BTable t # bs) = paragraph_indices (Suc i) bs"

fun table_indices :: "nat \<Rightarrow> block list \<Rightarrow> nat list" where
  "table_indices i [] = []"
| "table_indices i (BParagraph p # bs) = table_indices (Suc i) bs"
| "table_indices i (BTable t # bs) = i # table_indices (Suc i) bs"

definition Document_paragraphs :: "document \<Rightarrow> para_ref list" where
  "Document_paragraphs d = map TopPara (paragraph_indices 0 (body d))"

definition Document_tables :: "document \<Rightarrow> nat list" where
  "Document_tables d = table_indices 0 (body d)"

text \<open>What a reference points at in a given state of the document, if anything.\<close>

fun Document_paragraph :: "document \<Rightarrow> para_ref \<Rightarrow> Paragraph option" where
  "Document_paragraph d (TopPara i) =
     (if i < length (body d)
      then (case body d ! i of BParagraph p \<Rightarrow> Some p | BTable t \<Rightarrow> None)
      else None)"
| "Document_paragraph d (CellPara ti ci j) =
     (case Document_table d ti of
        None \<Rightarrow> None
      | Some t \<Rightarrow>
         (if ci < length (Table_cells t) \<and> j < length (paragraphs (Table_cells t ! ci))
          then Some (paragraphs (Table_cells t ! ci) ! j)
          else None))"

fun Document_run :: "document \<Rightarrow> run_ref \<Rightarrow> run option" where
  "Document_run d (RunRef p k) =
     (case Document_paragraph d p of
        None \<Rightarrow> None
      | Some para \<Rightarrow> (if k < length (p_runs para) then Some (p_runs para ! k) else None))"

text \<open>
  \<open>document.add_paragraph(text, style)\<close> appends a paragraph at the end of the body
  and \<open>paragraph.insert_paragraph_before(text, style)\<close> puts one directly before the
  paragraph it is called on; both return the new paragraph. The new paragraph gets a
  run holding the text when the text is not empty, and the style when one is given.
\<close>

definition new_paragraph :: "pystr \<Rightarrow> pystr option \<Rightarrow> Paragraph" where
  "new_paragraph text style =
     \<lparr>p_runs = (if text = [] then [] else [new_run text]), p_style = style\<rparr>"

definition Document_add_paragraph :: "document \<Rightarrow> pystr \<Rightarrow> pystr option \<Rightarrow> para_ref \<times> document" where
  "Document_add_paragraph d text style =
     (TopPara (length (body d)), d\<lparr>body := body d @ [BParagraph (new_paragraph text style)]\<rparr>)"

definition insert_at :: "nat \<Rightarrow> 'a \<Rightarrow> 'a list \<Rightarrow> 'a list" where
  "insert_at i x xs = take i xs @ [x] @ drop i xs"

fun Paragraph_insert_paragraph_before :: "document \<Rightarrow> para_ref \<Rightarrow> pystr \<Rightarrow> pystr option \<Rightarrow> para_ref \<times> document" where
  "Paragraph_insert_paragraph_before d (TopPara i) text style =
     (TopPara i, d\<lparr>body := insert_at i (BParagraph (new_paragraph text style)) (body d)\<rparr>)"
| "Paragraph_insert_paragraph_before d (CellPara ti ci j) text style =
     (CellPara ti ci j,
      Document_update_table d ti (\<lambda>t. Table_update_cell t ci
        (\<lambda>c. Cell (insert_at j (new_paragraph text style) (paragraphs c)))))"

text \<open>
  A write through a paragraph or run reference rewrites that paragraph or run of the
  document. \<open>run.text\<close> reads the text of the run and \<open>run.text = s\<close> replaces it,
  leaving the run where it is and its formatting as it is.
\<close>

fun block_update_paragraph :: "(Paragraph \<Rightarrow> Paragraph) \<Rightarrow> block \<Rightarrow> block" where
  "block_update_paragraph f (BParagraph p) = BParagraph (f p)"
| "block_update_paragraph f (BTable t) = BTable t"

fun Document_update_paragraph :: "document \<Rightarrow> para_ref \<Rightarrow> (Paragraph \<Rightarrow> Paragraph) \<Rightarrow> document" where
  "Document_update_paragraph d (TopPara i) f =
     d\<lparr>body := (body d)[i := block_update_paragraph f (body d ! i)]\<rparr>"
| "Document_update_paragraph d (CellPara ti ci j) f =
     Document_update_table d ti (\<lambda>t. Table_update_cell t ci
       (\<lambda>c. Cell ((paragraphs c)[j := f (paragraphs c ! j)])))"

fun Document_update_run :: "document \<Rightarrow> run_ref \<Rightarrow> (run \<Rightarrow> run) \<Rightarrow> document" where
  "Document_update_run d (RunRef p k) f =
     Document_update_paragraph d p (\<lambda>para. para\<lparr>p_runs := (p_runs para)[k := f (p_runs para ! k)]\<rparr>)"

definition Run_text :: "document \<Rightarrow> run_ref \<Rightarrow> pystr" where
  "Run_text d r = (case Document_run d r of None \<Rightarrow> [] | Some x \<Rightarrow> r_text x)"

definition Run_set_text :: "document \<Rightarrow> run_ref \<Rightarrow> pystr \<Rightarrow> document" where
  "Run_set_text d r s = Document_update_run d r (\<lambda>x. x\<lparr>r_text := s\<rparr>)"

text \<open>
  The cell references of \<open>table.row_cells(i)\<close>: the indices of the slice
  \<open>_cells[i*c : i*c + c]\<close>.
\<close>

definition Table_row_cell_refs :: "table \<Rightarrow> nat \<Rightarrow> nat list" where
  "Table_row_cell_refs t i = map (\<lambda>k. i * t_grid_cols t + k) [0..<length (Table_row_cells t i)]"

datatype cell_ref = CellRef nat nat

fun Document_cell :: "document \<Rightarrow> cell_ref \<Rightarrow> cell option" where
  "Document_cell d (CellRef ti ci) =
     (case Document_table d ti of
        None \<Rightarrow> None
      | Some t \<Rightarrow> (if ci < length (Table_cells t) then Some (Table_cells t ! ci) else None))"

section \<open>part.py: the module-level locator\<close>

definition get_table_row_length :: "table \<Rightarrow> int" where
  "get_table_row_length t = int (length (Table_rows t))"

definition get_table_column_length :: "table \<Rightarrow> int" where
  "get_table_column_length t = int (length (Table_columns t))"

definition get_row_in_table :: "table \<Rightarrow> int \<Rightarrow> error + row" where
  "get_row_in_table t row_index =
     (if 0 < row_index \<and> row_index < get_table_row_length t
      then py_getitem (Table_rows t) row_index
      else Inl (AssertionError RowIndexOutOfRange))"

definition get_column_in_table :: "table \<Rightarrow> int \<Rightarrow> error + column" where
  "get_column_in_table t column_index =
     (if 0 < column_index \<and> column_index < get_table_column_length t
      then py_getitem (Table_columns t) column_index
      else Inl (AssertionError ColumnIndexOutOfRange))"

text \<open>
  The flattening functions, for a document object as argument (a path is opened
  first). They return the objects as references into the document.
\<close>

definition get_paragraphs :: "document \<Rightarrow> para_ref list" where
  "get_paragraphs doc = Document_paragraphs doc"

definition get_tables :: "document \<Rightarrow> nat list" where
  "get_tables doc = Document_tables doc"

definition get_cells_in_table :: "table \<Rightarrow> nat list" where
  "get_cells_in_table t =
     concat (map (\<lambda>i. Table_row_cell_refs t i) [0..<nat (get_table_row_length t)])"

definition get_cells_in_tables :: "document \<Rightarrow> cell_ref list" where
  "get_cells_in_tables doc =
     concat (map (\<lambda>ti. case Document_table doc ti of
                          None \<Rightarrow> []
                        | Some t \<Rightarrow> map (CellRef ti) (get_cells_in_table t))
                 (get_tables doc))"

fun cell_paragraph_refs :: "document \<Rightarrow> cell_ref \<Rightarrow> para_ref list" where
  "cell_paragraph_refs doc (CellRef ti ci) =
     (case Document_cell doc (CellRef ti ci) of
        None \<Rightarrow> []
      | Some c \<Rightarrow> map (CellPara ti ci) [0..<length (paragraphs c)])"

definition get_paragraphs_in_tables :: "document \<Rightarrow> para_ref list" where
  "get_paragraphs_in_tables doc = concat (map (cell_paragraph_refs doc) (get_cells_in_tables doc))"

definition get_all_paragraphs :: "document \<Rightarrow> para_ref list" where
  "get_all_paragraphs doc = get_paragraphs doc @ get_paragraphs_in_tables doc"

definition paragraph_run_refs :: "document \<Rightarrow> para_ref \<Rightarrow> run_ref list" where
  "paragraph_run_refs doc p =
     (case Document_paragraph doc p of
        None \<Rightarrow> []
      | Some para \<Rightarrow> map (RunRef p) [0..<length (p_runs para)])"

definition get_all_runs :: "document \<Rightarrow> run_ref list" where
  "get_all_runs doc = concat (map (paragraph_run_refs doc) (get_all_paragraphs doc))"

section \<open>element.py: the table-element locator\<close>

text \<open>
  A \<open>DOCXElement\<close> holds the document it was made for and the lists it has looked up
  so far; \<open>None\<close> is a list not looked up yet. \<open>DOCXElement_init\<close> is the
  constructor called with a document object.
\<close>

record DOCXElement =
  e_doc :: document
  e_paragraphs :: "para_ref list option"
  e_tables :: "nat list option"
  e_runs :: "run_ref list option"

definition DOCXElement_init :: "document \<Rightarrow> DOCXElement" where
  "DOCXElement_init file = \<lparr>e_doc = file, e_paragraphs = None, e_tables = None, e_runs = None\<rparr>"

definition get_paragraphs_of_document :: "DOCXElement \<Rightarrow> para_ref list \<times> DOCXElement" where
  "get_paragraphs_of_document e =
     (Document_paragraphs (e_doc e), e\<lparr>e_paragraphs := Some (Document_paragraphs (e_doc e))\<rparr>)"

text \<open>
  \<open>get_paragraph_by_index\<close>: the list is looked up when it is still \<open>None\<close>, the
  index is asserted to lie in \<open>[0, len)\<close>, and the list is indexed.
\<close>

definition get_paragraph_by_index :: "DOCXElement \<Rightarrow> int \<Rightarrow> (error + para_ref) \<times> DOCXElement" where
  "get_paragraph_by_index e index =
     (let e1 = (if e_paragraphs e = None then snd (get_paragraphs_of_document e) else e)
      in case e_paragraphs e1 of
           None \<Rightarrow> (Inl TypeError, e1)
         | Some ps \<Rightarrow>
            (if 0 \<le> index \<and> index < int (length ps) then (py_getitem ps index, e1)
             else (Inl (AssertionError ParagraphIndexInvalid), e1)))"

text \<open>A position is an integer index or a paragraph object (\<open>isinstance(paragraph, int)\<close>).\<close>

datatype position = PosIndex int | PosParagraph para_ref

fun get_paragraph :: "DOCXElement \<Rightarrow> position \<Rightarrow> (error + para_ref) \<times> DOCXElement" where
  "get_paragraph e (PosIndex index) = get_paragraph_by_index e index"
| "get_paragraph e (PosParagraph p) = (Inr p, e)"

text \<open>
  The four kinds of object that \<open>get_cells_of_table_element\<close> tells apart with
  \<open>isinstance\<close>.
\<close>

datatype table_element =
    ElTable table
  | ElRow row
  | ElColumn column
  | ElCell cell

text \<open>
  \<open>table._cells\<close> is a list: \<open>get_cells_of_table\<close> returns it as one and
  \<open>add_table\<close> indexes it. Calling a list, as \<open>element._cells()\<close> does, raises
  \<open>TypeError\<close> ('list' object is not callable).
\<close>

definition call_list :: "'a list \<Rightarrow> error + 'b" where
  "call_list xs = Inl TypeError"

definition get_cells_of_table :: "table \<Rightarrow> cell list" where
  "get_cells_of_table t = Table_cells t"

fun get_cells_of_table_element :: "table_element \<Rightarrow> error + cell list" where
  "get_cells_of_table_element (ElTable t) = call_list (Table_cells t)"
| "get_cells_of_table_element (ElCell c) = Inr [c]"
| "get_cells_of_table_element (ElRow r) = Inr (Row_cells r)"
| "get_cells_of_table_element (ElColumn c) = Inr (Column_cells c)"

text \<open>A loop \<open>for x in xs: acc.extend(f(x))\<close> is \<open>concat (map f xs)\<close>.\<close>

definition get_paragraphs_of_table_element :: "table_element \<Rightarrow> error + Paragraph list" where
  "get_paragraphs_of_table_element element =
     (case get_cells_of_table_element element of
        Inl e \<Rightarrow> Inl e
      | Inr cs \<Rightarrow> Inr (concat (map paragraphs cs)))"

definition get_runs_in_table_element :: "table_element \<Rightarrow> error + run list" where
  "get_runs_in_table_element element =
     (case get_paragraphs_of_table_element element of
        Inl e \<Rightarrow> Inl e
      | Inr ps \<Rightarrow> Inr (concat (map p_runs ps)))"

section \<open>content.py: DocContent\<close>

subsection \<open>insert_paragraph_before\<close>

text \<open>
  The method works on \<open>self.doc\<close> and changes it in place: the model takes the
  document's state and returns the new one with the result. When the lookup of the
  position fails nothing has been changed yet.
\<close>

definition insert_paragraph_before :: "document \<Rightarrow> pystr \<Rightarrow> position \<Rightarrow> pystr option \<Rightarrow> (error + para_ref) \<times> document" where
  "insert_paragraph_before d text position style =
     (case fst (get_paragraph (DOCXElement_init d) position) of
        Inl e \<Rightarrow> (Inl e, d)
      | Inr pos_paragraph \<Rightarrow>
         (let (paragraph, d') = Paragraph_insert_paragraph_before d pos_paragraph text style
          in (Inr paragraph, d')))"

subsection \<open>append_rows\<close>

text \<open>
  Modelled from the spec: \<open>len(table.rows[0])\<close>, the length of a row object, which
  the specification calls the table's \<open>column_count\<close>. The row class belongs to
  python-docx and is not part of the sources.
\<close>

fun Row_len :: "row \<Rightarrow> int" where
  "Row_len (Row t i) = int (t_grid_cols t)"

text \<open>
  In \<open>append_rows\<close> the name \<open>row\<close> is first the loop counter and is then
  rebound to the row that \<open>table.add_row()\<close> returns, before
  \<open>row * column_length\<close> is evaluated. \<open>loop_var\<close> is what the name can hold: an
  integer, or a row of the table under construction (named by its index).
  Multiplying a row object by an integer raises \<open>TypeError\<close>.
\<close>

datatype loop_var = IntVal int | RowVal nat

fun py_mul :: "loop_var \<Rightarrow> int \<Rightarrow> error + int" where
  "py_mul (IntVal a) b = Inr (a * b)"
| "py_mul (RowVal r) b = Inl TypeError"

text \<open>
  \<open>row.cells[index]\<close>: the cell reference at position \<open>index\<close> of the row's
  cells. An integer has no attribute \<open>cells\<close>.
\<close>

fun row_cell_ref :: "table \<Rightarrow> loop_var \<Rightarrow> int \<Rightarrow> error + nat" where
  "row_cell_ref t (IntVal a) index = Inl AttributeError"
| "row_cell_ref t (RowVal r) index =
     py_getitem (Table_row_cell_refs t r) index"

text \<open>
  The inner loop, \<open>for index in range(column_length)\<close>, with body
  \<open>row.cells[index].text = data[row * column_length + index]\<close>: the right-hand side
  is evaluated first. The table is changed in place, so a failure returns the table
  as it stands at that moment.
\<close>

fun append_rows_fill :: "table \<Rightarrow> loop_var \<Rightarrow> int \<Rightarrow> pystr list \<Rightarrow> nat list \<Rightarrow> error option \<times> table" where
  "append_rows_fill t row column_length data [] = (None, t)"
| "append_rows_fill t row column_length data (index # rest) =
     (case py_mul row column_length of
        Inl e \<Rightarrow> (Some e, t)
      | Inr m \<Rightarrow>
         (case py_getitem data (m + int index) of
            Inl e \<Rightarrow> (Some e, t)
          | Inr v \<Rightarrow>
             (case row_cell_ref t row (int index) of
                Inl e \<Rightarrow> (Some e, t)
              | Inr c \<Rightarrow>
                 append_rows_fill (Table_update_cell t c (Cell_set_text v))
                   row column_length data rest)))"

text \<open>The outer loop, \<open>for row in range(rows)\<close>, whose first statement rebinds \<open>row\<close>.\<close>

fun append_rows_loop :: "table \<Rightarrow> int \<Rightarrow> pystr list \<Rightarrow> nat list \<Rightarrow> error option \<times> table" where
  "append_rows_loop t column_length data [] = (None, t)"
| "append_rows_loop t column_length data (row0 # rest) =
     (let t1 = Table_add_row t;
          row = RowVal (length (t_trs t1) - 1)
      in case append_rows_fill t1 row column_length data [0..<nat column_length] of
           (Some e, t2) \<Rightarrow> (Some e, t2)
         | (None, t2) \<Rightarrow> append_rows_loop t2 column_length data rest)"

text \<open>
  \<open>int(len(data) / column_length)\<close> divides as floats and truncates; for the
  lengths of lists that fit in memory that is the integer quotient.
\<close>

definition append_rows :: "table \<Rightarrow> pystr list \<Rightarrow> error option \<times> table" where
  "append_rows t data =
     (case py_getitem (Table_rows t) 0 of
        Inl e \<Rightarrow> (Some e, t)
      | Inr r0 \<Rightarrow>
         (let column_length = Row_len r0 in
          if column_length = 0 then (Some ZeroDivisionError, t)
          else (let rows = int (length data) div column_length
                in append_rows_loop t column_length data [0..<nat rows])))"

subsection \<open>add_table\<close>

text \<open>
  \<open>self.doc\<close> is the document the facade works on; the method changes it in place,
  so the model takes its state and returns the new one. \<open>cells\<close> is the list of cell
  references \<open>table._cells\<close> of the new table.
\<close>

fun add_table_fill :: "document \<Rightarrow> nat \<Rightarrow> nat list \<Rightarrow> pystr list \<Rightarrow> nat list \<Rightarrow> error option \<times> document" where
  "add_table_fill d table cells data [] = (None, d)"
| "add_table_fill d table cells data (index # rest) =
     (case py_getitem data (int index) of
        Inl e \<Rightarrow> (Some e, d)
      | Inr v \<Rightarrow>
         (case py_getitem cells (int index) of
            Inl e \<Rightarrow> (Some e, d)
          | Inr c \<Rightarrow>
             add_table_fill
               (Document_update_table d table (\<lambda>t. Table_update_cell t c (Cell_set_text v)))
               table cells data rest))"

definition table_cell_refs :: "document \<Rightarrow> nat \<Rightarrow> nat list" where
  "table_cell_refs d table =
     (case Document_table d table of
        None \<Rightarrow> []
      | Some t \<Rightarrow> [0..<length (get_cells_of_table t)])"

definition add_table :: "document \<Rightarrow> int \<Rightarrow> int \<Rightarrow> pystr list \<Rightarrow> pystr option \<Rightarrow> (error + nat) \<times> document" where
  "add_table d rows columns data style =
     (if \<not> (rows > 0 \<and> columns > 0) then (Inl (AssertionError TableDimsNotPositive), d)
      else if \<not> (int (length data) \<ge> rows * columns)
        then (Inl (AssertionError DataFewerThanCells), d)
      else (let (table, d1) = Document_add_table d (nat rows) (nat columns) style;
                cells = table_cell_refs d1 table
            in case add_table_fill d1 table cells data [0..<nat (rows * columns)] of
                 (Some e, d2) \<Rightarrow> (Inl e, d2)
               | (None, d2) \<Rightarrow> (Inr table, d2)))"

section \<open>style.py: DocStyle.set_run_attribute\<close>

subsection \<open>What the method calls\<close>

text \<open>
  \<open>qn(tag)\<close> turns a prefixed tag such as \<open>w:eastAsia\<close> into the qualified name
  \<open>{uri}eastAsia\<close>: \<open>prefix, tagroot = tag.split(':')\<close> raises \<open>ValueError\<close>
  unless the tag has exactly one colon (code point 58), and a prefix that the
  library's namespace table does not bind raises \<open>KeyError\<close>. The table is not part
  of the sources and is a parameter.
\<close>

fun py_split :: "'a \<Rightarrow> 'a list \<Rightarrow> 'a list list" where
  "py_split sep [] = [[]]"
| "py_split sep (c # cs) =
     (if c = sep then [] # py_split sep cs
      else (case py_split sep cs of
              [] \<Rightarrow> [[c]]
            | part # parts \<Rightarrow> (c # part) # parts))"

definition qn :: "(pystr \<times> pystr) list \<Rightarrow> pystr \<Rightarrow> error + pystr" where
  "qn nsmap tag =
     (case py_split 58 tag of
        [pfx, tagroot] \<Rightarrow>
          (case map_of nsmap pfx of
             None \<Rightarrow> Inl KeyError
           | Some uri \<Rightarrow> Inr (str ''{'' @ uri @ str ''}'' @ tagroot))
      | other \<Rightarrow> Inl ValueError)"

text \<open>Setting an attribute of an element: the value of that name is replaced or added.\<close>

fun attr_set :: "pystr \<Rightarrow> pystr \<Rightarrow> (pystr \<times> pystr) list \<Rightarrow> (pystr \<times> pystr) list" where
  "attr_set k v [] = [(k, v)]"
| "attr_set k v ((k', v') # rest) =
     (if k' = k then (k, v) # rest else (k', v') # attr_set k v rest)"

text \<open>
  The font name of a run is kept in the attributes \<open>w:ascii\<close> and \<open>w:hAnsi\<close> of its
  \<open>w:rFonts\<close> element. \<open>run.font.name = v\<close> writes both, adding the element when
  it is missing; \<open>run.font.name = None\<close> removes the element. \<open>run.font.name\<close>
  reads \<open>w:ascii\<close>.
\<close>

definition Font_set_name :: "(pystr \<times> pystr) list \<Rightarrow> run \<Rightarrow> pystr option \<Rightarrow> error option \<times> run" where
  "Font_set_name nsmap run value =
     (case value of
        None \<Rightarrow> (None, run\<lparr>r_rFonts := None\<rparr>)
      | Some v \<Rightarrow>
         (case qn nsmap (str ''w:ascii'') of
            Inl e \<Rightarrow> (Some e, run)
          | Inr ka \<Rightarrow>
             (case qn nsmap (str ''w:hAnsi'') of
                Inl e \<Rightarrow> (Some e, run)
              | Inr kh \<Rightarrow>
                 (None, run\<lparr>r_rFonts :=
                    Some (attr_set kh v (attr_set ka v
                      (case r_rFonts run of None \<Rightarrow> [] | Some attrs \<Rightarrow> attrs)))\<rparr>))))"

definition rFonts_attribute :: "(pystr \<times> pystr) list \<Rightarrow> run \<Rightarrow> string \<Rightarrow> pystr option" where
  "rFonts_attribute nsmap run tag =
     (case r_rFonts run of
        None \<Rightarrow> None
      | Some attrs \<Rightarrow>
         (case qn nsmap (str tag) of Inl e \<Rightarrow> None | Inr k \<Rightarrow> map_of attrs k))"

definition Font_name :: "(pystr \<times> pystr) list \<Rightarrow> run \<Rightarrow> pystr option" where
  "Font_name nsmap run = rFonts_attribute nsmap run ''w:ascii''"

definition Font_east_asia :: "(pystr \<times> pystr) list \<Rightarrow> run \<Rightarrow> pystr option" where
  "Font_east_asia nsmap run = rFonts_attribute nsmap run ''w:eastAsia''"

text \<open>
  \<open>Pt(n)\<close> is a length of \<open>n\<close> points in English Metric Units, 12700 to the point.
  Sizes are whole numbers of points here; a fractional size is a float and outside
  this model.
\<close>

definition Pt :: "int \<Rightarrow> int" where
  "Pt points = points * 12700"

text \<open>
  \<open>int(s, 16)\<close> on ASCII text: surrounding whitespace is dropped, then come an
  optional sign, an optional \<open>0x\<close> or \<open>0X\<close> (which one underscore may follow) and
  hexadecimal digits, where single underscores may stand between digits. Anything
  else raises \<open>ValueError\<close>. Python also reads the decimal digits and the spaces of
  other scripts; the model rejects code points above 127.
\<close>

definition py_isspace :: "nat \<Rightarrow> bool" where
  "py_isspace c = (c = 32 \<or> (9 \<le> c \<and> c \<le> 13) \<or> (28 \<le> c \<and> c \<le> 31))"

definition hex_digit :: "nat \<Rightarrow> nat option" where
  "hex_digit c =
     (if 48 \<le> c \<and> c \<le> 57 then Some (c - 48)
      else if 65 \<le> c \<and> c \<le> 70 then Some (c - 55)
      else if 97 \<le> c \<and> c \<le> 102 then Some (c - 87)
      else None)"

text \<open>
  The digits after sign and prefix. \<open>after_digit\<close> says whether the previous
  character was a digit, the only place where an underscore may stand; the text must
  end on a digit.
\<close>

fun hex_digits :: "nat \<Rightarrow> bool \<Rightarrow> pystr \<Rightarrow> nat option" where
  "hex_digits acc after_digit [] = (if after_digit then Some acc else None)"
| "hex_digits acc after_digit (c # cs) =
     (if c = 95 then (if after_digit then hex_digits acc False cs else None)
      else (case hex_digit c of
              None \<Rightarrow> None
            | Some v \<Rightarrow> hex_digits (16 * acc + v) True cs))"

definition strip_prefix_0x :: "pystr \<Rightarrow> pystr" where
  "strip_prefix_0x s =
     (case s of
        a # b # rest \<Rightarrow>
          (if a = 48 \<and> (b = 120 \<or> b = 88)
           then (case rest of u # rest' \<Rightarrow> (if u = 95 then rest' else rest) | [] \<Rightarrow> rest)
           else s)
      | other \<Rightarrow> s)"

definition py_strip :: "pystr \<Rightarrow> pystr" where
  "py_strip s = rev (dropWhile py_isspace (rev (dropWhile py_isspace s)))"

definition py_int16 :: "pystr \<Rightarrow> error + int" where
  "py_int16 s =
     (let t = py_strip s;
          (negative, u) = (case t of
                             c # rest \<Rightarrow> (if c = 45 then (True, rest)
                                          else if c = 43 then (False, rest)
                                          else (False, t))
                           | [] \<Rightarrow> (False, t))
      in case hex_digits 0 False (strip_prefix_0x u) of
           None \<Rightarrow> Inl ValueError
         | Some n \<Rightarrow> Inr (if negative then - int n else int n))"

text \<open>
  Modelled from the spec: a colour, which the specification has as a triple of
  integers from 0 to 255 or a string of six hexadecimal digits. The colour class
  belongs to python-docx and is not part of the sources. \<open>RGBColor(r, g, b)\<close>
  raises \<open>ValueError\<close> unless each value is an integer from 0 to 255, and is then
  the triple; \<open>RGBColor.from_string(s)\<close> reads \<open>s[:2]\<close>, \<open>s[2:4]\<close> and
  \<open>s[4:]\<close> in base 16 and builds the colour from the three values.
\<close>

definition RGBColor :: "int \<Rightarrow> int \<Rightarrow> int \<Rightarrow> error + rgb" where
  "RGBColor r g b =
     (if 0 \<le> r \<and> r \<le> 255 \<and> 0 \<le> g \<and> g \<le> 255 \<and> 0 \<le> b \<and> b \<le> 255
      then Inr (r, g, b) else Inl ValueError)"

definition RGBColor_from_string :: "pystr \<Rightarrow> error + rgb" where
  "RGBColor_from_string rgb_hex_str =
     (case py_int16 (take 2 rgb_hex_str) of
        Inl e \<Rightarrow> Inl e
      | Inr r \<Rightarrow>
         (case py_int16 (take 2 (drop 2 rgb_hex_str)) of
            Inl e \<Rightarrow> Inl e
          | Inr g \<Rightarrow>
             (case py_int16 (drop 4 rgb_hex_str) of
                Inl e \<Rightarrow> Inl e
              | Inr b \<Rightarrow> RGBColor r g b)))"

subsection \<open>The method\<close>

text \<open>
  The \<open>color\<close> argument is a tuple (of integers) or a string. The parameters
  \<open>en_font\<close> and \<open>zh_font\<close> have defaults that are not \<open>None\<close>: the tag
  \<open>w:eastAsia\<close> and a font name of four code points.
\<close>

datatype color_arg = ColorTuple "int list" | ColorStr pystr

definition default_en_font :: "pystr option" where
  "default_en_font = Some (str ''w:eastAsia'')"

definition default_zh_font :: "pystr option" where
  "default_zh_font = Some [0x5FAE, 0x8F6F, 0x96C5, 0x9ED1]"

text \<open>
  Lines 160 to 162: when either font argument is not \<open>None\<close>, \<open>run.font.name = zh_font\<close>
  and then \<open>run._element.rPr.rFonts.set(qn(en_font), zh_font)\<close>. The second
  statement first reads \<open>rFonts\<close>, which is \<open>None\<close> when the name was just removed
  (\<open>AttributeError\<close>), and then calls \<open>qn(en_font)\<close>, which fails on \<open>None\<close>
  (\<open>AttributeError\<close>) as it has no \<open>split\<close>. The run is changed in place, so a
  failure leaves it as it stands at that moment.
\<close>

definition set_run_fonts :: "(pystr \<times> pystr) list \<Rightarrow> run \<Rightarrow> pystr option \<Rightarrow> pystr option \<Rightarrow> error option \<times> run" where
  "set_run_fonts nsmap run en_font zh_font =
     (if en_font \<noteq> None \<or> zh_font \<noteq> None then
        (case Font_set_name nsmap run zh_font of
           (Some e, run1) \<Rightarrow> (Some e, run1)
         | (None, run1) \<Rightarrow>
            (case r_rFonts run1 of
               None \<Rightarrow> (Some AttributeError, run1)
             | Some attrs \<Rightarrow>
                (case en_font of
                   None \<Rightarrow> (Some AttributeError, run1)
                 | Some tag \<Rightarrow>
                    (case qn nsmap tag of
                       Inl e \<Rightarrow> (Some e, run1)
                     | Inr k \<Rightarrow>
                        (case zh_font of
                           None \<Rightarrow> (Some TypeError, run1)
                         | Some v \<Rightarrow> (None, run1\<lparr>r_rFonts := Some (attr_set k v attrs)\<rparr>))))))
      else (None, run))"

text \<open>
  Modelled from the spec: the colour of a run, which the specification lists among a
  run's attributes and reads back as an RGB triple. \<open>run.font.color = c\<close> stores
  \<open>c\<close> as that colour; the font class belongs to python-docx and is not part of the
  sources. Lines 165 to 170: a tuple is unpacked into three values (\<open>ValueError\<close>
  unless it has three) that go to \<open>RGBColor\<close>, a string goes to
  \<open>RGBColor.from_string\<close>.
\<close>

definition set_run_color :: "run \<Rightarrow> color_arg option \<Rightarrow> error option \<times> run" where
  "set_run_color run color =
     (case color of
        None \<Rightarrow> (None, run)
      | Some (ColorTuple vs) \<Rightarrow>
         (case vs of
            [r, g, b] \<Rightarrow>
              (case RGBColor r g b of
                 Inl e \<Rightarrow> (Some e, run)
               | Inr c \<Rightarrow> (None, run\<lparr>r_color := Some c\<rparr>))
          | other \<Rightarrow> (Some ValueError, run))
      | Some (ColorStr s) \<Rightarrow>
         (case RGBColor_from_string s of
            Inl e \<Rightarrow> (Some e, run)
          | Inr c \<Rightarrow> (None, run\<lparr>r_color := Some c\<rparr>)))"

definition set_run_attribute :: "(pystr \<times> pystr) list \<Rightarrow> run \<Rightarrow> pystr option \<Rightarrow> pystr option \<Rightarrow> int option \<Rightarrow> color_arg option \<Rightarrow> bool option \<Rightarrow> bool option \<Rightarrow> error option \<times> run" where
  "set_run_attribute nsmap run en_font zh_font font_size color bold italic =
     (case set_run_fonts nsmap run en_font zh_font of
        (Some e, run1) \<Rightarrow> (Some e, run1)
      | (None, run1) \<Rightarrow>
         (let run2 = (case font_size of
                        None \<Rightarrow> run1
                      | Some points \<Rightarrow> run1\<lparr>r_size := Some (Pt points)\<rparr>)
          in case set_run_color run2 color of
               (Some e, run3) \<Rightarrow> (Some e, run3)
             | (None, run3) \<Rightarrow>
                (let run4 = (case bold of None \<Rightarrow> run3 | Some v \<Rightarrow> run3\<lparr>r_bold := Some v\<rparr>);
                     run5 = (case italic of None \<Rightarrow> run4 | Some v \<Rightarrow> run4\<lparr>r_italic := Some v\<rparr>)
                 in (None, run5))))"

section \<open>doc_decorate.py: DocDecorate\<close>

text \<open>
  The facade holds its document and the lists it flattened at construction; the
  lists hold references into that document. \<open>DocDecorate_init\<close> is the constructor
  from line 56 on, with \<open>self.doc\<close> bound to a document in the given state.
\<close>

record DocDecorate =
  dd_doc :: document
  dd_runs :: "run_ref list"
  dd_paragraphs :: "para_ref list"
  dd_tables :: "nat list"
  dd_cells :: "cell_ref list"

definition DocDecorate_init :: "document \<Rightarrow> DocDecorate" where
  "DocDecorate_init doc =
     \<lparr>dd_doc = doc, dd_runs = get_all_runs doc, dd_paragraphs = get_paragraphs doc,
      dd_tables = get_tables doc, dd_cells = get_cells_in_tables doc\<rparr>"

subsection \<open>replace\<close>

text \<open>
  The inner loop, \<open>for key in context\<close>, on one run: each test and each replacement
  reads the text the run has at that moment.
\<close>

fun replace_keys :: "pydict \<Rightarrow> pystr list \<Rightarrow> run_ref \<Rightarrow> document \<Rightarrow> document" where
  "replace_keys context [] run d = d"
| "replace_keys context (key # keys) run d =
     replace_keys context keys run
       (if py_in key (Run_text d run)
        then Run_set_text d run (py_replace (Run_text d run) key (py_str (dict_get context key)))
        else d)"

text \<open>The outer loop, \<open>for run in self.runs\<close>.\<close>

fun replace_runs :: "pydict \<Rightarrow> run_ref list \<Rightarrow> document \<Rightarrow> document" where
  "replace_runs context [] d = d"
| "replace_runs context (run # runs) d =
     replace_runs context runs (replace_keys context (dict_keys context) run d)"

definition replace :: "DocDecorate \<Rightarrow> pydict \<Rightarrow> DocDecorate" where
  "replace self context = self\<lparr>dd_doc := replace_runs context (dd_runs self) (dd_doc self)\<rparr>"

subsection \<open>delete_run\<close>

text \<open>
  The loop stops at the first run of \<open>self.runs\<close> whose text equals \<open>text\<close>: it sets
  that run's text to the empty string and removes the run from \<open>self.runs\<close>
  (\<open>list.remove\<close> takes out the first equal element).
\<close>

fun delete_run_loop :: "DocDecorate \<Rightarrow> pystr \<Rightarrow> run_ref list \<Rightarrow> DocDecorate" where
  "delete_run_loop self text [] = self"
| "delete_run_loop self text (run # runs) =
     (if Run_text (dd_doc self) run = text
      then self\<lparr>dd_doc := Run_set_text (dd_doc self) run [],
                dd_runs := remove1 run (dd_runs self)\<rparr>
      else delete_run_loop self text runs)"

definition delete_run :: "DocDecorate \<Rightarrow> pystr \<Rightarrow> DocDecorate" where
  "delete_run self text = delete_run_loop self text (dd_runs self)"

section \<open>Which document a facade works on\<close>

text \<open>
  Document objects are shared and changed in place, so which object a facade holds
  matters. The heap lists the documents alive; a reference to one is its index.
  \<open>doc_obj\<close> is what a \<open>doc\<close> field or a constructor argument can be: a document,
  a \<open>DocContent\<close> facade (given by its own \<open>doc\<close> field), or \<open>None\<close>.
  A constructor argument is a path or such an object.
\<close>

type_synonym heap = "document list"

datatype doc_obj = DocumentObj nat | DocContentObj doc_obj | NoneObj

datatype init_arg = ArgStr pystr | ArgObj doc_obj

text \<open>
  \<open>docx.Document(path)\<close> opens the file at \<open>path\<close>, and the default template when
  called without a path; either way it makes a new document object. The files that
  can be opened and the content of the default template come from outside the
  sources and are parameters.
\<close>

record env =
  fs :: "pystr \<Rightarrow> document option"
  default_template :: document

definition docx_Document :: "env \<Rightarrow> pystr option \<Rightarrow> heap \<Rightarrow> (error + nat) \<times> heap" where
  "docx_Document ev path h =
     (case path of
        None \<Rightarrow> (Inr (length h), h @ [default_template ev])
      | Some f \<Rightarrow>
         (case fs ev f of
            None \<Rightarrow> (Inl PackageNotFoundError, h)
          | Some d \<Rightarrow> (Inr (length h), h @ [d])))"

record DocContent =
  c_doc :: doc_obj

text \<open>
  \<open>DocContent.__init__\<close>: a \<open>str\<close> is opened, a \<open>DocContent\<close> instance is kept,
  and everything else, a document object included, falls to the last branch,
  \<open>self.doc = docx.Document()\<close>.
\<close>

fun DocContent_init :: "env \<Rightarrow> init_arg \<Rightarrow> heap \<Rightarrow> (error + DocContent) \<times> heap" where
  "DocContent_init ev (ArgStr path) h =
     (case docx_Document ev (Some path) h of
        (Inl e, h') \<Rightarrow> (Inl e, h')
      | (Inr r, h') \<Rightarrow> (Inr \<lparr>c_doc = DocumentObj r\<rparr>, h'))"
| "DocContent_init ev (ArgObj (DocContentObj x)) h = (Inr \<lparr>c_doc = DocContentObj x\<rparr>, h)"
| "DocContent_init ev (ArgObj other) h =
     (case docx_Document ev None h of
        (Inl e, h') \<Rightarrow> (Inl e, h')
      | (Inr r, h') \<Rightarrow> (Inr \<lparr>c_doc = DocumentObj r\<rparr>, h'))"

text \<open>
  The first lines of \<open>DocDecorate.__init__\<close> (and of \<open>DOCXElement.__init__\<close>), which
  bind \<open>self.doc\<close>: a \<open>str\<close> is opened and any other argument is kept.
\<close>

fun DocDecorate_init_doc :: "env \<Rightarrow> init_arg \<Rightarrow> heap \<Rightarrow> (error + doc_obj) \<times> heap" where
  "DocDecorate_init_doc ev (ArgStr path) h =
     (case docx_Document ev (Some path) h of
        (Inl e, h') \<Rightarrow> (Inl e, h')
      | (Inr r, h') \<Rightarrow> (Inr (DocumentObj r), h'))"
| "DocDecorate_init_doc ev (ArgObj x) h = (Inr x, h)"

text \<open>
  \<open>DocContent.add_paragraph\<close> calls \<open>self.doc.add_paragraph(text, style)\<close>: on a
  document that is the library's method, on a \<open>DocContent\<close> it is this method
  again, and \<open>None\<close> has no such attribute. The result names the document and the
  new paragraph in it.
\<close>

fun doc_obj_add_paragraph :: "doc_obj \<Rightarrow> pystr \<Rightarrow> pystr option \<Rightarrow> heap \<Rightarrow> (error + nat \<times> para_ref) \<times> heap" where
  "doc_obj_add_paragraph (DocumentObj r) text style h =
     (let (p, d') = Document_add_paragraph (h ! r) text style
      in (Inr (r, p), h[r := d']))"
| "doc_obj_add_paragraph (DocContentObj x) text style h = doc_obj_add_paragraph x text style h"
| "doc_obj_add_paragraph NoneObj text style h = (Inl AttributeError, h)"

definition add_paragraph :: "DocContent \<Rightarrow> pystr \<Rightarrow> pystr option \<Rightarrow> heap \<Rightarrow> (error + nat \<times> para_ref) \<times> heap" where
  "add_paragraph self text style h = doc_obj_add_paragraph (c_doc self) text style h"

section \<open>Reading a document\<close>

text \<open>The top-level paragraphs and the tables of a body, as values, in document order.\<close>

fun top_paragraphs :: "block list \<Rightarrow> Paragraph list" where
  "top_paragraphs [] = []"
| "top_paragraphs (BParagraph p # bs) = p # top_paragraphs bs"
| "top_paragraphs (BTable t # bs) = top_paragraphs bs"

fun top_tables :: "block list \<Rightarrow> table list" where
  "top_tables [] = []"
| "top_tables (BParagraph p # bs) = top_tables bs"
| "top_tables (BTable t # bs) = t # top_tables bs"

text \<open>
  The rewriting of one text that the specification describes for \<open>replace\<close>: the
  items of the mapping are taken in iteration order, and an item whose key is a
  substring of the current text replaces the key by the stringified value.
\<close>

fun rewrite_text :: "pydict \<Rightarrow> pystr \<Rightarrow> pystr" where
  "rewrite_text [] text = text"
| "rewrite_text ((key, v) # items) text =
     rewrite_text items (if sublist key text then py_replace text key (py_str v) else text)"

text \<open>
  One turn of the inner loop of \<open>replace\<close>, as it acts on the text of the run.
\<close>

definition key_step :: "pydict \<Rightarrow> pystr \<Rightarrow> pystr \<Rightarrow> pystr" where
  "key_step context key text =
     (if py_in key text then py_replace text key (py_str (dict_get context key)) else text)"

text \<open>A facade is sound when its cached runs are distinct runs of its document.\<close>

definition runs_valid :: "DocDecorate \<Rightarrow> bool" where
  "runs_valid self = (distinct (dd_runs self)
     \<and> list_all (\<lambda>r. Document_run (dd_doc self) r \<noteq> None) (dd_runs self))"

section \<open>Example data\<close>

text \<open>The cell that \<open>cell.text = s\<close> leaves behind, whatever the cell was before.\<close>

definition text_cell :: "pystr \<Rightarrow> cell" where
  "text_cell s = Cell [\<lparr>p_runs = [new_run s], p_style = None\<rparr>]"

text \<open>A table of one row and three columns, with cell texts a, b, c.\<close>

definition ex_table3 :: table where
  "ex_table3 = \<lparr>t_grid_cols = 3,
      t_trs = [[text_cell (str ''a''), text_cell (str ''b''), text_cell (str ''c'')]],
      t_style = None\<rparr>"

text \<open>A document of a paragraph, the table above and a second paragraph.\<close>

definition ex_document :: document where
  "ex_document = \<lparr>body = [BParagraph (new_paragraph (str ''first'') None), BTable ex_table3,
      BParagraph (new_paragraph (str ''second'') None)]\<rparr>"

text \<open>A world with no files, whose default template is the empty document.\<close>

definition ex_env :: env where
  "ex_env = \<lparr>fs = (\<lambda>path. None), default_template = \<lparr>body = []\<rparr>\<rparr>"

text \<open>
  A namespace table that binds \<open>w\<close>, a plain run, and the hexadecimal writing of a
  colour: two digits per value, in upper or in lower case.
\<close>

definition ex_nsmap :: "(pystr \<times> pystr) list" where
  "ex_nsmap = [(str ''w'', str ''urn:w'')]"

definition ex_run :: run where
  "ex_run = new_run (str ''text'')"

definition hex_char :: "bool \<Rightarrow> nat \<Rightarrow> nat" where
  "hex_char upper v = (if v < 10 then 48 + v else (if upper then 55 else 87) + v)"

definition hex2 :: "bool \<Rightarrow> int \<Rightarrow> pystr" where
  "hex2 upper n = [hex_char upper (nat n div 16), hex_char upper (nat n mod 16)]"

definition hex6 :: "bool \<Rightarrow> int \<Rightarrow> int \<Rightarrow> int \<Rightarrow> pystr" where
  "hex6 upper r g b = hex2 upper r @ hex2 upper g @ hex2 upper b"

text \<open>
  A document whose first paragraph has the runs foobar123 and marker, followed by the
  table above and a last paragraph, and the facade made for it.
\<close>

definition ex_marker_document :: document where
  "ex_marker_document = \<lparr>body = [BParagraph \<lparr>p_runs = [new_run (str ''foobar123''), new_run (str ''marker'')], p_style = None\<rparr>,
      BTable ex_table3, BParagraph (new_paragraph (str ''tail'') None)]\<rparr>"

definition ex_facade :: DocDecorate where
  "ex_facade = DocDecorate_init ex_marker_document"

definition ex_empty_document :: document where
  "ex_empty_document = \<lparr>body = []\<rparr>"

section \<open>Row and column lookup by index (part.py)\<close>

lemma py_getitem_in_range:
  "0 \<le> i \<Longrightarrow> i < int (length xs) \<Longrightarrow> py_getitem xs i = Inr (xs ! nat i)"
  by (simp add: py_getitem_def)

text \<open>
  C10. \<open>get_row_in_table(t, i)\<close> and \<open>get_column_in_table(t, i)\<close> pass their
  assertion exactly when \<open>0 < i < count\<close>; then they return the row (column) of
  \<open>t\<close> at index \<open>i\<close>, and otherwise they fail. Index 0 therefore always fails.
\<close>

theorem get_row_column_in_table_index:
  "get_row_in_table t i =
     (if 0 < i \<and> i < int (length (Table_rows t)) then Inr (Table_rows t ! nat i)
      else Inl (AssertionError RowIndexOutOfRange))
   \<and> get_column_in_table t i =
     (if 0 < i \<and> i < int (length (Table_columns t)) then Inr (Table_columns t ! nat i)
      else Inl (AssertionError ColumnIndexOutOfRange))
   \<and> get_row_in_table t 0 = Inl (AssertionError RowIndexOutOfRange)
   \<and> get_column_in_table t 0 = Inl (AssertionError ColumnIndexOutOfRange)"
  by (simp add: get_row_in_table_def get_column_in_table_def get_table_row_length_def
      get_table_column_length_def py_getitem_in_range)

section \<open>The run lookup over table elements (element.py)\<close>

text \<open>
  C8. For a table, \<open>get_runs_in_table_element\<close> does not return the table's runs:
  \<open>get_cells_of_table_element\<close> calls the list \<open>element._cells\<close>, and the lookup
  fails with \<open>TypeError\<close> for every table.
\<close>

theorem get_runs_in_table_element_table_fails:
  "get_runs_in_table_element (ElTable t) = Inl TypeError"
  by (simp add: get_runs_in_table_element_def get_paragraphs_of_table_element_def call_list_def)

lemma get_runs_in_table_element_others:
  "get_runs_in_table_element (ElRow r) = Inr (concat (map p_runs (concat (map paragraphs (Row_cells r)))))"
  "get_runs_in_table_element (ElColumn c) = Inr (concat (map p_runs (concat (map paragraphs (Column_cells c)))))"
  "get_runs_in_table_element (ElCell x) = Inr (concat (map p_runs (paragraphs x)))"
  by (simp_all add: get_runs_in_table_element_def get_paragraphs_of_table_element_def)

section \<open>Appending rows (content.py)\<close>

lemma upt_0_Suc_Cons: "[0..<Suc n] = 0 # [Suc 0..<Suc n]"
  by (rule upt_conv_Cons) simp

lemma append_rows_fill_fails:
  "append_rows_fill t (RowVal r) column_length data (index # rest) = (Some TypeError, t)"
  by simp

lemma append_rows_loop_fails:
  assumes "0 < column_length"
  shows "append_rows_loop t column_length data (row0 # rest) = (Some TypeError, Table_add_row t)"
proof -
  obtain c where c: "nat column_length = Suc c"
    using assms by (cases "nat column_length") auto
  show ?thesis
    by (simp only: append_rows_loop.simps Let_def c upt_0_Suc_Cons append_rows_fill_fails
        split: prod.split option.split) simp
qed

text \<open>
  C1. On a table with at least one row and \<open>c \<ge> 1\<close> columns, \<open>append_rows\<close>
  does nothing when \<open>len(data) < c\<close>; as soon as \<open>len(data) \<ge> c\<close> it appends one
  row of new, empty cells and then fails with \<open>TypeError\<close>, because \<open>row\<close> is the
  new row object when \<open>row * column_length\<close> is evaluated. No cell is ever filled.
\<close>

theorem append_rows_fails_on_rebound_row:
  assumes "t_trs t \<noteq> []" and "0 < t_grid_cols t"
  shows "append_rows t data =
     (if length data < t_grid_cols t then (None, t) else (Some TypeError, Table_add_row t))"
proof -
  have r0: "py_getitem (Table_rows t) 0 = Inr (Row t 0)"
    using assms(1) by (simp add: py_getitem_def Table_rows_def upt_conv_Cons)
  show ?thesis
  proof (cases "length data < t_grid_cols t")
    case True
    then have "int (length data) div int (t_grid_cols t) = 0" by simp
    then show ?thesis using True assms(2) by (simp add: append_rows_def r0)
  next
    case False
    then have "1 \<le> length data div t_grid_cols t"
      using assms(2) by (simp add: Suc_le_eq div_greater_zero_iff)
    then obtain k where k: "nat (int (length data) div int (t_grid_cols t)) = Suc k"
      by (metis Suc_le_D nat_int zdiv_int One_nat_def)
    have "append_rows t data =
        append_rows_loop t (int (t_grid_cols t)) data [0..<Suc k]"
      using assms(2) by (simp add: append_rows_def r0 k Let_def del: upt_Suc)
    also have "\<dots> = (Some TypeError, Table_add_row t)"
      unfolding upt_0_Suc_Cons using assms(2) by (intro append_rows_loop_fails) simp
    finally show ?thesis using False by simp
  qed
qed

lemma Cell_text_text_cell: "Cell_text (text_cell s) = s"
  by (simp add: Cell_text_def text_cell_def Paragraph_text_def new_run_def)

lemma Cell_text_new_cell: "Cell_text new_cell = []"
  by (simp add: Cell_text_def new_cell_def Paragraph_text_def empty_paragraph_def)

theorem append_rows_fails_on_rebound_row_witness:
  "append_rows ex_table3 [str ''x'', str ''y'', str ''z'', str ''w'']
     = (Some TypeError, Table_add_row ex_table3)
   \<and> map Cell_text (Table_cells (Table_add_row ex_table3))
     = [str ''a'', str ''b'', str ''c'', [], [], []]"
proof -
  have h1: "t_trs ex_table3 \<noteq> []" and h2: "0 < t_grid_cols ex_table3"
    by (simp_all add: ex_table3_def)
  have "append_rows ex_table3 [str ''x'', str ''y'', str ''z'', str ''w'']
     = (Some TypeError, Table_add_row ex_table3)"
    using append_rows_fails_on_rebound_row[OF h1 h2, of "[str ''x'', str ''y'', str ''z'', str ''w'']"]
    by (simp add: ex_table3_def)
  moreover have "map Cell_text (Table_cells (Table_add_row ex_table3))
     = [str ''a'', str ''b'', str ''c'', [], [], []]"
    by (simp add: ex_table3_def Table_add_row_def Table_cells_def Cell_text_text_cell
        Cell_text_new_cell numeral_3_eq_3)
  ultimately show ?thesis by simp
qed

section \<open>Building a table (content.py)\<close>

lemma concat_update_nth_cell:
  "concat (update_nth_cell rs k f) = (concat rs)[k := f (concat rs ! k)]"
proof (induction rs arbitrary: k)
  case Nil
  then show ?case by simp
next
  case (Cons r rs)
  show ?case
  proof (cases "k < length r")
    case True
    then show ?thesis by (simp add: list_update_append1 nth_append)
  next
    case False
    then show ?thesis using Cons.IH[of "k - length r"]
      by (simp add: list_update_append nth_append)
  qed
qed

lemma map_length_update_nth_cell:
  "map length (update_nth_cell rs k f) = map length rs"
  by (induction rs arbitrary: k) auto

lemma Table_cells_update_cell:
  "Table_cells (Table_update_cell t k (Cell_set_text v)) = (Table_cells t)[k := text_cell v]"
  by (simp add: Table_cells_def Table_update_cell_def concat_update_nth_cell Cell_set_text_def
      text_cell_def)

text \<open>
  The filling loop over any indices that lie inside the data and the cell list: it
  never fails, touches only the table it fills, and writes \<open>data[i]\<close> into cell \<open>i\<close>.
\<close>

lemma add_table_fill_run:
  assumes "tref < length (body d)" "body d ! tref = BTable t"
    and "\<forall>i \<in> set idxs. i < length data \<and> i < n"
  shows "\<exists>t'. add_table_fill d tref [0..<n] data idxs
               = (None, d\<lparr>body := (body d)[tref := BTable t']\<rparr>)
     \<and> Table_cells t' = fold (\<lambda>i cs. cs[i := text_cell (data ! i)]) idxs (Table_cells t)
     \<and> t_grid_cols t' = t_grid_cols t \<and> map length (t_trs t') = map length (t_trs t)
     \<and> t_style t' = t_style t"
  using assms
proof (induction idxs arbitrary: d t)
  case Nil
  have "d\<lparr>body := (body d)[tref := BTable t]\<rparr> = d"
    using Nil.prems(1,2) by (metis list_update_id document.surjective document.update_convs(1))
  then show ?case by (intro exI[of _ t]) simp
next
  case (Cons i idxs)
  let ?t1 = "Table_update_cell t i (Cell_set_text (data ! i))"
  let ?d1 = "Document_update_table d tref (\<lambda>t. Table_update_cell t i (Cell_set_text (data ! i)))"
  have d1: "?d1 = d\<lparr>body := (body d)[tref := BTable ?t1]\<rparr>"
    using Cons.prems(2) by (simp add: Document_update_table_def)
  have i: "i < length data" "i < n" using Cons.prems(3) by auto
  have g1: "py_getitem data (int i) = Inr (data ! i)" using i by (simp add: py_getitem_def)
  have g2: "py_getitem [0..<n] (int i) = Inr i" using i by (simp add: py_getitem_def)
  have step: "add_table_fill d tref [0..<n] data (i # idxs)
      = add_table_fill ?d1 tref [0..<n] data idxs"
    by (simp add: g1 g2)
  have p1: "tref < length (body ?d1)" using Cons.prems(1) by (simp add: d1)
  have p2: "body ?d1 ! tref = BTable ?t1" using Cons.prems(1) by (simp add: d1)
  from Cons.IH[OF p1 p2] Cons.prems(3)
  obtain t' where t':
    "add_table_fill ?d1 tref [0..<n] data idxs
       = (None, ?d1\<lparr>body := (body ?d1)[tref := BTable t']\<rparr>)"
    "Table_cells t' = fold (\<lambda>i cs. cs[i := text_cell (data ! i)]) idxs (Table_cells ?t1)"
    "t_grid_cols t' = t_grid_cols ?t1" "map length (t_trs t') = map length (t_trs ?t1)"
    "t_style t' = t_style ?t1"
    by auto
  have e: "?d1\<lparr>body := (body ?d1)[tref := BTable t']\<rparr> = d\<lparr>body := (body d)[tref := BTable t']\<rparr>"
    by (simp add: d1)
  have c1: "Table_cells ?t1 = (Table_cells t)[i := text_cell (data ! i)]"
    by (rule Table_cells_update_cell)
  have c2: "t_grid_cols ?t1 = t_grid_cols t" "map length (t_trs ?t1) = map length (t_trs t)"
    "t_style ?t1 = t_style t"
    by (simp_all add: Table_update_cell_def map_length_update_nth_cell)
  have f: "Table_cells t'
      = fold (\<lambda>i cs. cs[i := text_cell (data ! i)]) (i # idxs) (Table_cells t)"
    by (simp add: t'(2) c1)
  have r: "add_table_fill d tref [0..<n] data (i # idxs)
      = (None, d\<lparr>body := (body d)[tref := BTable t']\<rparr>)"
    by (simp only: step t'(1) e)
  show ?case
    using r f t'(3,4,5) c2 by (intro exI[of _ t']) simp
qed

lemma fold_fill_upt:
  "m \<le> length cs \<Longrightarrow> m \<le> length data \<Longrightarrow>
   fold (\<lambda>i cs. cs[i := text_cell (data ! i)]) [0..<m] cs
     = map text_cell (take m data) @ drop m cs"
proof (induction m)
  case 0
  then show ?case by simp
next
  case (Suc m)
  then show ?case
    by (simp add: take_Suc_conv_app_nth list_update_append Cons_nth_drop_Suc[symmetric]
        upd_conv_take_nth_drop)
qed

lemma length_concat_replicate: "length (concat (replicate r (replicate c x))) = r * c"
  by (induction r) auto

lemma add_table_ok:
  assumes "0 < rows" "0 < columns" "rows * columns \<le> int (length data)"
  shows "\<exists>t. add_table d rows columns data style =
            (Inr (length (body d)), d\<lparr>body := body d @ [BTable t]\<rparr>)
        \<and> t_grid_cols t = nat columns
        \<and> map length (t_trs t) = replicate (nat rows) (nat columns)
        \<and> t_style t = style
        \<and> map Cell_text (get_cells_of_table t) = take (nat (rows * columns)) data"
proof -
  let ?t0 = "\<lparr>t_grid_cols = nat columns,
      t_trs = replicate (nat rows) (replicate (nat columns) new_cell), t_style = style\<rparr>"
  let ?d1 = "d\<lparr>body := body d @ [BTable ?t0]\<rparr>"
  let ?tref = "length (body d)"
  let ?n = "nat (rows * columns)"
  have n: "?n = nat rows * nat columns" using assms(1,2) by (simp add: nat_mult_distrib)
  have len0: "length (Table_cells ?t0) = ?n"
    by (simp add: Table_cells_def length_concat_replicate n)
  have dt: "Document_add_table d (nat rows) (nat columns) style = (?tref, ?d1)"
    by (simp add: Document_add_table_def)
  have refs: "table_cell_refs ?d1 ?tref = [0..<?n]"
    using len0 by (simp add: table_cell_refs_def get_cells_of_table_def)
  have nd: "?n \<le> length data" using assms(3) by linarith
  have p1: "?tref < length (body ?d1)" by simp
  have p2: "body ?d1 ! ?tref = BTable ?t0" by simp
  have p3: "\<forall>i \<in> set [0..<?n]. i < length data \<and> i < ?n" using nd by auto
  from add_table_fill_run[OF p1 p2 p3]
  obtain t' where t': "add_table_fill ?d1 ?tref [0..<?n] data [0..<?n] =
        (None, ?d1\<lparr>body := (body ?d1)[?tref := BTable t']\<rparr>)"
     "Table_cells t' = fold (\<lambda>i cs. cs[i := text_cell (data ! i)]) [0..<?n] (Table_cells ?t0)"
     "t_grid_cols t' = t_grid_cols ?t0" "map length (t_trs t') = map length (t_trs ?t0)"
     "t_style t' = t_style ?t0"
    by blast
  have e: "?d1\<lparr>body := (body ?d1)[?tref := BTable t']\<rparr> = d\<lparr>body := body d @ [BTable t']\<rparr>"
    by simp
  have cells: "Table_cells t' = map text_cell (take ?n data)"
    using fold_fill_upt[of ?n "Table_cells ?t0" data] len0 nd by (simp add: t'(2))
  have r: "add_table d rows columns data style
      = (Inr ?tref, d\<lparr>body := body d @ [BTable t']\<rparr>)"
    using assms by (simp add: add_table_def dt refs t'(1) e del: upt_Suc)
  have texts: "map Cell_text (get_cells_of_table t') = take ?n data"
    by (simp add: get_cells_of_table_def cells Cell_text_text_cell comp_def)
  show ?thesis
    using r texts t'(3,4,5) by (intro exI[of _ t']) simp
qed

text \<open>
  C2. \<open>add_table(rows, columns, data)\<close> checks its arguments in this order: with
  \<open>rows \<le> 0\<close> or \<open>columns \<le> 0\<close> it fails on the first assertion (the
  InvalidArgument condition) and leaves the document alone; otherwise, with fewer than
  \<open>rows * columns\<close> data items, it fails on the second (InsufficientData) and leaves
  the document alone; otherwise it appends one table to the body and returns it, the
  table has \<open>rows\<close> rows of \<open>columns\<close> cells, and the text of its cell \<open>i\<close> in
  row-major order is \<open>data[i]\<close> for every \<open>i < rows * columns\<close>.
\<close>

theorem add_table_builds_grid:
  "(rows \<le> 0 \<or> columns \<le> 0 \<longrightarrow>
      add_table d rows columns data style = (Inl (AssertionError TableDimsNotPositive), d))
   \<and> (0 < rows \<and> 0 < columns \<and> int (length data) < rows * columns \<longrightarrow>
      add_table d rows columns data style = (Inl (AssertionError DataFewerThanCells), d))
   \<and> (0 < rows \<and> 0 < columns \<and> rows * columns \<le> int (length data) \<longrightarrow>
      (\<exists>t. add_table d rows columns data style
              = (Inr (length (body d)), d\<lparr>body := body d @ [BTable t]\<rparr>)
         \<and> t_grid_cols t = nat columns
         \<and> map length (t_trs t) = replicate (nat rows) (nat columns)
         \<and> map Cell_text (get_cells_of_table t) = take (nat (rows * columns)) data
         \<and> (\<forall>i < nat (rows * columns). Cell_text (get_cells_of_table t ! i) = data ! i)))"
proof (intro conjI impI)
  assume "rows \<le> 0 \<or> columns \<le> 0"
  then show "add_table d rows columns data style
      = (Inl (AssertionError TableDimsNotPositive), d)"
    by (auto simp add: add_table_def)
next
  assume "0 < rows \<and> 0 < columns \<and> int (length data) < rows * columns"
  then show "add_table d rows columns data style
      = (Inl (AssertionError DataFewerThanCells), d)"
    by (simp add: add_table_def)
next
  assume a: "0 < rows \<and> 0 < columns \<and> rows * columns \<le> int (length data)"
  then obtain t where t:
    "add_table d rows columns data style
       = (Inr (length (body d)), d\<lparr>body := body d @ [BTable t]\<rparr>)"
    "t_grid_cols t = nat columns"
    "map length (t_trs t) = replicate (nat rows) (nat columns)"
    "map Cell_text (get_cells_of_table t) = take (nat (rows * columns)) data"
    using add_table_ok[of rows columns data d style] by blast
  have "\<forall>i < nat (rows * columns). Cell_text (get_cells_of_table t ! i) = data ! i"
  proof (intro allI impI)
    fix i assume i: "i < nat (rows * columns)"
    have nd: "nat (rows * columns) \<le> length data" using a by linarith
    have "i < length (map Cell_text (get_cells_of_table t))"
      using i nd by (simp add: t(4))
    then have "Cell_text (get_cells_of_table t ! i) = map Cell_text (get_cells_of_table t) ! i"
      by simp
    also have "\<dots> = data ! i" using i by (simp add: t(4))
    finally show "Cell_text (get_cells_of_table t ! i) = data ! i" .
  qed
  with t show "\<exists>t. add_table d rows columns data style
              = (Inr (length (body d)), d\<lparr>body := body d @ [BTable t]\<rparr>)
         \<and> t_grid_cols t = nat columns
         \<and> map length (t_trs t) = replicate (nat rows) (nat columns)
         \<and> map Cell_text (get_cells_of_table t) = take (nat (rows * columns)) data
         \<and> (\<forall>i < nat (rows * columns). Cell_text (get_cells_of_table t ! i) = data ! i)"
    by blast
qed

theorem add_table_builds_grid_witness:
  "(\<exists>t. add_table ex_empty_document 2 3
            (map str [''a'', ''b'', ''c'', ''d'', ''e'', ''f'']) None
          = (Inr 0, \<lparr>body = [BTable t]\<rparr>)
       \<and> map Cell_text (get_cells_of_table t) = map str [''a'', ''b'', ''c'', ''d'', ''e'', ''f''])
   \<and> add_table ex_empty_document 0 3 (map str [''a'', ''b'', ''c'', ''d'', ''e'', ''f'']) None
       = (Inl (AssertionError TableDimsNotPositive), ex_empty_document)
   \<and> add_table ex_empty_document 2 3 (map str [''a'', ''b'', ''c'', ''d'', ''e'']) None
       = (Inl (AssertionError DataFewerThanCells), ex_empty_document)"
proof -
  let ?six = "map str [''a'', ''b'', ''c'', ''d'', ''e'', ''f'']"
  let ?five = "map str [''a'', ''b'', ''c'', ''d'', ''e'']"
  have "\<exists>t. add_table ex_empty_document 2 3 ?six None = (Inr 0, \<lparr>body = [BTable t]\<rparr>)
       \<and> map Cell_text (get_cells_of_table t) = ?six"
    using add_table_builds_grid[of 2 3 ex_empty_document ?six None]
    by (simp add: ex_empty_document_def) (elim exE conjE, intro exI conjI, assumption+)
  moreover have "add_table ex_empty_document 0 3 ?six None
       = (Inl (AssertionError TableDimsNotPositive), ex_empty_document)"
    using add_table_builds_grid[of 0 3 ex_empty_document ?six None] by simp
  moreover have "add_table ex_empty_document 2 3 ?five None
       = (Inl (AssertionError DataFewerThanCells), ex_empty_document)"
    using add_table_builds_grid[of 2 3 ex_empty_document ?five None] by simp
  ultimately show ?thesis by blast
qed

section \<open>Inserting a paragraph before another (content.py)\<close>

lemma length_paragraph_indices: "length (paragraph_indices i bs) = length (top_paragraphs bs)"
  by (induction i bs rule: paragraph_indices.induct) auto

lemma paragraph_indices_nth:
  "k < length (top_paragraphs bs) \<Longrightarrow>
   \<exists>j. paragraph_indices i bs ! k = i + j \<and> j < length bs
     \<and> top_paragraphs (take j bs) = take k (top_paragraphs bs)
     \<and> top_paragraphs (drop j bs) = drop k (top_paragraphs bs)
     \<and> top_tables (take j bs) @ top_tables (drop j bs) = top_tables bs"
proof (induction i bs arbitrary: k rule: paragraph_indices.induct)
  case (1 i)
  then show ?case by simp
next
  case (2 i p bs)
  show ?case
  proof (cases k)
    case 0
    then show ?thesis by (intro exI[of _ 0]) simp
  next
    case (Suc k')
    then have "k' < length (top_paragraphs bs)" using 2 by simp
    from 2(1)[OF this] obtain j where j: "paragraph_indices (Suc i) bs ! k' = Suc i + j" "j < length bs"
      "top_paragraphs (take j bs) = take k' (top_paragraphs bs)"
      "top_paragraphs (drop j bs) = drop k' (top_paragraphs bs)"
      "top_tables (take j bs) @ top_tables (drop j bs) = top_tables bs" by blast
    then show ?thesis using Suc by (intro exI[of _ "Suc j"]) simp
  qed
next
  case (3 i t bs)
  then have "k < length (top_paragraphs bs)" by simp
  from 3(1)[OF this] obtain j where j: "paragraph_indices (Suc i) bs ! k = Suc i + j" "j < length bs"
      "top_paragraphs (take j bs) = take k (top_paragraphs bs)"
      "top_paragraphs (drop j bs) = drop k (top_paragraphs bs)"
      "top_tables (take j bs) @ top_tables (drop j bs) = top_tables bs" by blast
  then show ?case by (intro exI[of _ "Suc j"]) simp
qed

lemma paragraph_indices_append:
  "paragraph_indices i (xs @ ys) = paragraph_indices i xs @ paragraph_indices (i + length xs) ys"
  by (induction i xs rule: paragraph_indices.induct) auto

lemma top_paragraphs_append: "top_paragraphs (xs @ ys) = top_paragraphs xs @ top_paragraphs ys"
  by (induction xs rule: top_paragraphs.induct) auto

lemma top_tables_append: "top_tables (xs @ ys) = top_tables xs @ top_tables ys"
  by (induction xs rule: top_tables.induct) auto

lemma insert_paragraph_before_in_range:
  assumes "0 \<le> i" "i < int (length (top_paragraphs (body d)))"
  shows "\<exists>r d'. insert_paragraph_before d text (PosIndex i) style = (Inr r, d')
      \<and> top_paragraphs (body d')
          = take (nat i) (top_paragraphs (body d)) @ [new_paragraph text style]
            @ drop (nat i) (top_paragraphs (body d))
      \<and> Document_paragraphs d' ! nat i = r
      \<and> Document_paragraph d' r = Some (new_paragraph text style)
      \<and> top_tables (body d') = top_tables (body d)"
proof -
  let ?ps = "top_paragraphs (body d)"
  let ?k = "nat i"
  have k: "?k < length ?ps" using assms by linarith
  from paragraph_indices_nth[OF k, of 0] obtain j where j:
    "paragraph_indices 0 (body d) ! ?k = j" "j < length (body d)"
    "top_paragraphs (take j (body d)) = take ?k ?ps"
    "top_paragraphs (drop j (body d)) = drop ?k ?ps"
    "top_tables (take j (body d)) @ top_tables (drop j (body d)) = top_tables (body d)"
    by auto
  let ?new = "new_paragraph text style"
  let ?d' = "d\<lparr>body := insert_at j (BParagraph ?new) (body d)\<rparr>"
  have look: "fst (get_paragraph_by_index (DOCXElement_init d) i) = Inr (TopPara j)"
    using assms k j(1)
    by (simp add: get_paragraph_by_index_def DOCXElement_init_def get_paragraphs_of_document_def
        Document_paragraphs_def length_paragraph_indices py_getitem_def Let_def)
  have res: "insert_paragraph_before d text (PosIndex i) style = (Inr (TopPara j), ?d')"
    by (simp add: insert_paragraph_before_def look)
  have ps': "top_paragraphs (body ?d') = take ?k ?ps @ [?new] @ drop ?k ?ps"
    by (simp add: insert_at_def top_paragraphs_append j(3,4))
  have tb': "top_tables (body ?d') = top_tables (body d)"
    using j(5) by (simp add: insert_at_def top_tables_append)
  have deref: "Document_paragraph ?d' (TopPara j) = Some ?new"
    using j(2) by (simp add: insert_at_def nth_append)
  have lk: "length (paragraph_indices 0 (take j (body d))) = ?k"
    using k by (simp add: length_paragraph_indices j(3))
  have "paragraph_indices 0 (body ?d') ! ?k = j"
    using j(2) by (simp add: insert_at_def paragraph_indices_append nth_append lk)
  moreover have "?k < length (paragraph_indices 0 (body ?d'))"
    using k ps' by (simp add: length_paragraph_indices)
  ultimately have idx: "Document_paragraphs ?d' ! ?k = TopPara j"
    by (simp add: Document_paragraphs_def)
  show ?thesis
    using res ps' idx deref tb' by blast
qed

lemma insert_paragraph_before_out_of_range:
  assumes "\<not> (0 \<le> i \<and> i < int (length (top_paragraphs (body d))))"
  shows "insert_paragraph_before d text (PosIndex i) style
     = (Inl (AssertionError ParagraphIndexInvalid), d)"
  using assms
  by (auto simp add: insert_paragraph_before_def get_paragraph_by_index_def DOCXElement_init_def
      get_paragraphs_of_document_def Document_paragraphs_def length_paragraph_indices Let_def)

lemma Paragraph_text_new_paragraph: "Paragraph_text (new_paragraph text style) = text"
  by (simp add: Paragraph_text_def new_paragraph_def new_run_def)

text \<open>
  C4. On a document with \<open>N\<close> top-level paragraphs, \<open>insert_paragraph_before(text, i)\<close>
  with \<open>0 \<le> i < N\<close> returns a new paragraph of that text, which is paragraph \<open>i\<close>
  of the document afterwards; the paragraphs before it and after it are the former
  ones in their order (so there are \<open>N + 1\<close>, and the paragraph formerly at \<open>i\<close> is
  at \<open>i + 1\<close>), and the tables are untouched. With any other integer index,
  \<open>i = N\<close> included, the call fails on the index assertion (the OutOfRange
  condition) and the document is unchanged.
\<close>

theorem insert_paragraph_before_by_index:
  "(0 \<le> i \<and> i < int (length (top_paragraphs (body d))) \<longrightarrow>
      (\<exists>r d'. insert_paragraph_before d text (PosIndex i) style = (Inr r, d')
         \<and> top_paragraphs (body d')
             = take (nat i) (top_paragraphs (body d)) @ [new_paragraph text style]
               @ drop (nat i) (top_paragraphs (body d))
         \<and> length (top_paragraphs (body d')) = length (top_paragraphs (body d)) + 1
         \<and> Document_paragraphs d' ! nat i = r
         \<and> Document_paragraph d' r = Some (new_paragraph text style)
         \<and> Paragraph_text (new_paragraph text style) = text
         \<and> top_tables (body d') = top_tables (body d)))
   \<and> (\<not> (0 \<le> i \<and> i < int (length (top_paragraphs (body d)))) \<longrightarrow>
      insert_paragraph_before d text (PosIndex i) style
        = (Inl (AssertionError ParagraphIndexInvalid), d))"
proof (intro conjI impI)
  assume a: "0 \<le> i \<and> i < int (length (top_paragraphs (body d)))"
  then obtain r d' where r:
    "insert_paragraph_before d text (PosIndex i) style = (Inr r, d')"
    "top_paragraphs (body d')
       = take (nat i) (top_paragraphs (body d)) @ [new_paragraph text style]
         @ drop (nat i) (top_paragraphs (body d))"
    "Document_paragraphs d' ! nat i = r"
    "Document_paragraph d' r = Some (new_paragraph text style)"
    "top_tables (body d') = top_tables (body d)"
    using insert_paragraph_before_in_range[of i d "text" style] by blast
  have len: "length (top_paragraphs (body d')) = length (top_paragraphs (body d)) + 1"
    using a by (simp add: r(2))
  show "\<exists>r d'. insert_paragraph_before d text (PosIndex i) style = (Inr r, d')
         \<and> top_paragraphs (body d')
             = take (nat i) (top_paragraphs (body d)) @ [new_paragraph text style]
               @ drop (nat i) (top_paragraphs (body d))
         \<and> length (top_paragraphs (body d')) = length (top_paragraphs (body d)) + 1
         \<and> Document_paragraphs d' ! nat i = r
         \<and> Document_paragraph d' r = Some (new_paragraph text style)
         \<and> Paragraph_text (new_paragraph text style) = text
         \<and> top_tables (body d') = top_tables (body d)"
    using r len Paragraph_text_new_paragraph[of "text" style] by blast
next
  assume "\<not> (0 \<le> i \<and> i < int (length (top_paragraphs (body d))))"
  then show "insert_paragraph_before d text (PosIndex i) style
        = (Inl (AssertionError ParagraphIndexInvalid), d)"
    by (rule insert_paragraph_before_out_of_range)
qed

theorem insert_paragraph_before_by_index_witness:
  "(\<exists>r d'. insert_paragraph_before ex_document (str ''new'') (PosIndex 0) None = (Inr r, d')
       \<and> map Paragraph_text (top_paragraphs (body d'))
           = [str ''new'', str ''first'', str ''second'']
       \<and> Document_paragraphs d' ! 0 = r)
   \<and> insert_paragraph_before ex_document (str ''new'') (PosIndex 2) None
       = (Inl (AssertionError ParagraphIndexInvalid), ex_document)"
proof -
  have ps: "top_paragraphs (body ex_document)
      = [new_paragraph (str ''first'') None, new_paragraph (str ''second'') None]"
    by (simp add: ex_document_def)
  have "0 \<le> (0::int) \<and> (0::int) < int (length (top_paragraphs (body ex_document)))"
    by (simp add: ps)
  then obtain r d' where r:
    "insert_paragraph_before ex_document (str ''new'') (PosIndex 0) None = (Inr r, d')"
    "top_paragraphs (body d')
       = take (nat 0) (top_paragraphs (body ex_document)) @ [new_paragraph (str ''new'') None]
         @ drop (nat 0) (top_paragraphs (body ex_document))"
    "Document_paragraphs d' ! nat 0 = r"
    using insert_paragraph_before_by_index[of 0 ex_document "str ''new''" None] by blast
  have "map Paragraph_text (top_paragraphs (body d'))
      = [str ''new'', str ''first'', str ''second'']"
    by (simp add: r(2) ps Paragraph_text_new_paragraph)
  with r(1,3)
  have "\<exists>r d'. insert_paragraph_before ex_document (str ''new'') (PosIndex 0) None = (Inr r, d')
       \<and> map Paragraph_text (top_paragraphs (body d'))
           = [str ''new'', str ''first'', str ''second'']
       \<and> Document_paragraphs d' ! 0 = r"
    by auto
  moreover have "insert_paragraph_before ex_document (str ''new'') (PosIndex 2) None
       = (Inl (AssertionError ParagraphIndexInvalid), ex_document)"
    using insert_paragraph_before_by_index[of 2 ex_document "str ''new''" None]
    by (simp add: ps)
  ultimately show ?thesis by blast
qed

section \<open>The document behind a DocContent facade (content.py)\<close>

lemma DocDecorate_init_doc_keeps_document:
  "DocDecorate_init_doc ev (ArgObj (DocumentObj d)) h = (Inr (DocumentObj d), h)"
  by simp

text \<open>
  C9. A \<open>DocContent\<close> built from an existing document object \<open>d\<close> does not wrap
  \<open>d\<close>: \<open>d\<close> is not a \<open>str\<close> and not a \<open>DocContent\<close>, so the constructor makes
  a new document from the default template and keeps that one. A paragraph added
  through the facade goes to the new document, and \<open>d\<close> stays as it was.
\<close>

theorem DocContent_init_drops_document:
  assumes "d < length h"
  shows "DocContent_init ev (ArgObj (DocumentObj d)) h
           = (Inr \<lparr>c_doc = DocumentObj (length h)\<rparr>, h @ [default_template ev])
       \<and> DocumentObj (length h) \<noteq> DocumentObj d
       \<and> (\<exists>p h'. add_paragraph \<lparr>c_doc = DocumentObj (length h)\<rparr> text style
                    (h @ [default_template ev]) = (Inr (length h, p), h')
              \<and> h' ! d = h ! d
              \<and> body (h' ! length h)
                  = body (default_template ev) @ [BParagraph (new_paragraph text style)])"
proof -
  have init: "DocContent_init ev (ArgObj (DocumentObj d)) h
           = (Inr \<lparr>c_doc = DocumentObj (length h)\<rparr>, h @ [default_template ev])"
    by (simp add: docx_Document_def)
  have ne: "DocumentObj (length h) \<noteq> DocumentObj d" using assms by simp
  let ?d' = "snd (Document_add_paragraph (default_template ev) text style)"
  let ?p = "fst (Document_add_paragraph (default_template ev) text style)"
  have add: "add_paragraph \<lparr>c_doc = DocumentObj (length h)\<rparr> text style (h @ [default_template ev])
      = (Inr (length h, ?p), (h @ [default_template ev])[length h := ?d'])"
    by (simp add: add_paragraph_def split_beta)
  have keep: "((h @ [default_template ev])[length h := ?d']) ! d = h ! d"
    using assms by (simp add: nth_append)
  have new: "body (((h @ [default_template ev])[length h := ?d']) ! length h)
      = body (default_template ev) @ [BParagraph (new_paragraph text style)]"
    by (simp add: Document_add_paragraph_def)
  show ?thesis using init ne add keep new by blast
qed

theorem DocContent_init_drops_document_witness:
  "DocContent_init ex_env (ArgObj (DocumentObj 0)) [ex_document]
      = (Inr \<lparr>c_doc = DocumentObj 1\<rparr>, [ex_document, \<lparr>body = []\<rparr>])
   \<and> (\<exists>p h'. add_paragraph \<lparr>c_doc = DocumentObj 1\<rparr> (str ''new'') None
                 [ex_document, \<lparr>body = []\<rparr>] = (Inr (1, p), h')
          \<and> h' ! 0 = ex_document
          \<and> body (h' ! 1) = [BParagraph (new_paragraph (str ''new'') None)])"
proof -
  have h: "(0::nat) < length [ex_document]" by simp
  show ?thesis
    using DocContent_init_drops_document[OF h, of ex_env "str ''new''" None]
    by (simp add: ex_env_def)
qed

section \<open>Setting the attributes of a run (style.py)\<close>

lemma map_of_attr_set: "map_of (attr_set k v xs) = (map_of xs)(k \<mapsto> v)"
  by (induction xs) (auto simp add: fun_eq_iff)

lemma qn_w:
  assumes "map_of nsmap (str ''w'') = Some uri"
  shows "qn nsmap (str ''w:eastAsia'') = Inr (str ''{'' @ uri @ str ''}'' @ str ''eastAsia'')"
    "qn nsmap (str ''w:ascii'') = Inr (str ''{'' @ uri @ str ''}'' @ str ''ascii'')"
    "qn nsmap (str ''w:hAnsi'') = Inr (str ''{'' @ uri @ str ''}'' @ str ''hAnsi'')"
  using assms by (simp_all add: qn_def str_def)

lemma set_run_fonts_none: "set_run_fonts nsmap run None None = (None, run)"
  by (simp add: set_run_fonts_def)

lemma set_run_fonts_pair:
  assumes "map_of nsmap (str ''w'') = Some uri"
  shows "\<exists>run1. set_run_fonts nsmap run (Some (str ''w:eastAsia'')) (Some font) = (None, run1)
     \<and> Font_name nsmap run1 = Some font \<and> Font_east_asia nsmap run1 = Some font
     \<and> r_text run1 = r_text run \<and> r_size run1 = r_size run \<and> r_color run1 = r_color run
     \<and> r_bold run1 = r_bold run \<and> r_italic run1 = r_italic run"
proof -
  define ka where "ka = str ''{'' @ uri @ str ''}'' @ str ''ascii''"
  define kh where "kh = str ''{'' @ uri @ str ''}'' @ str ''hAnsi''"
  define ke where "ke = str ''{'' @ uri @ str ''}'' @ str ''eastAsia''"
  define base where "base = (case r_rFonts run of None \<Rightarrow> [] | Some attrs \<Rightarrow> attrs)"
  define named where "named = attr_set kh font (attr_set ka font base)"
  have q: "qn nsmap (str ''w:ascii'') = Inr ka" "qn nsmap (str ''w:hAnsi'') = Inr kh"
    "qn nsmap (str ''w:eastAsia'') = Inr ke"
    using qn_w[OF assms] by (simp_all add: ka_def kh_def ke_def)
  have ne: "ka \<noteq> ke" "ka \<noteq> kh" by (simp_all add: ka_def ke_def kh_def str_def)
  have name: "Font_set_name nsmap run (Some font) = (None, run\<lparr>r_rFonts := Some named\<rparr>)"
    by (simp add: Font_set_name_def q named_def base_def)
  have res: "set_run_fonts nsmap run (Some (str ''w:eastAsia'')) (Some font)
      = (None, run\<lparr>r_rFonts := Some (attr_set ke font named)\<rparr>)"
    by (simp add: set_run_fonts_def name q)
  have n: "Font_name nsmap (run\<lparr>r_rFonts := Some (attr_set ke font named)\<rparr>) = Some font"
    using ne by (simp add: Font_name_def rFonts_attribute_def q map_of_attr_set named_def)
  have e: "Font_east_asia nsmap (run\<lparr>r_rFonts := Some (attr_set ke font named)\<rparr>) = Some font"
    by (simp add: Font_east_asia_def rFonts_attribute_def q map_of_attr_set)
  show ?thesis using res n e by simp
qed

lemma set_run_color_frame:
  "set_run_color run color = (None, run') \<Longrightarrow>
   r_text run' = r_text run \<and> r_rFonts run' = r_rFonts run \<and> r_size run' = r_size run
   \<and> r_bold run' = r_bold run \<and> r_italic run' = r_italic run
   \<and> (color = None \<longrightarrow> r_color run' = r_color run)"
  by (auto simp add: set_run_color_def split: option.splits color_arg.splits list.splits sum.splits)

lemma set_run_fonts_frame:
  "set_run_fonts nsmap run en_font zh_font = (None, run') \<Longrightarrow>
   r_text run' = r_text run \<and> r_size run' = r_size run \<and> r_color run' = r_color run
   \<and> r_bold run' = r_bold run \<and> r_italic run' = r_italic run"
  by (auto simp add: set_run_fonts_def Font_set_name_def split: option.splits if_splits sum.splits prod.splits)


lemma Font_reads_rFonts:
  "r_rFonts a = r_rFonts b \<Longrightarrow>
   Font_name nsmap a = Font_name nsmap b \<and> Font_east_asia nsmap a = Font_east_asia nsmap b"
  by (simp add: Font_name_def Font_east_asia_def rFonts_attribute_def)

lemma set_run_attribute_steps:
  assumes "set_run_attribute nsmap run en_font zh_font font_size color bold italic = (None, run')"
  shows "\<exists>run1 run3. set_run_fonts nsmap run en_font zh_font = (None, run1)
      \<and> set_run_color (case font_size of None \<Rightarrow> run1
                         | Some points \<Rightarrow> run1\<lparr>r_size := Some (Pt points)\<rparr>) color = (None, run3)
      \<and> run' = (case italic of None \<Rightarrow> (case bold of None \<Rightarrow> run3 | Some v \<Rightarrow> run3\<lparr>r_bold := Some v\<rparr>)
                 | Some w \<Rightarrow> (case bold of None \<Rightarrow> run3 | Some v \<Rightarrow> run3\<lparr>r_bold := Some v\<rparr>)\<lparr>r_italic := Some w\<rparr>)"
  using assms
  by (auto simp add: set_run_attribute_def Let_def split: prod.splits option.splits)

lemma set_run_attribute_frame:
  assumes "set_run_attribute nsmap run en_font zh_font font_size color bold italic = (None, run')"
  shows "r_text run' = r_text run
   \<and> (font_size = None \<longrightarrow> r_size run' = r_size run)
   \<and> (color = None \<longrightarrow> r_color run' = r_color run)
   \<and> (bold = None \<longrightarrow> r_bold run' = r_bold run)
   \<and> (italic = None \<longrightarrow> r_italic run' = r_italic run)
   \<and> (en_font = None \<and> zh_font = None \<longrightarrow> r_rFonts run' = r_rFonts run)"
proof -
  from set_run_attribute_steps[OF assms] obtain run1 run3 where
    f: "set_run_fonts nsmap run en_font zh_font = (None, run1)" and
    c: "set_run_color (case font_size of None \<Rightarrow> run1
                         | Some points \<Rightarrow> run1\<lparr>r_size := Some (Pt points)\<rparr>) color = (None, run3)" and
    r: "run' = (case italic of None \<Rightarrow> (case bold of None \<Rightarrow> run3 | Some v \<Rightarrow> run3\<lparr>r_bold := Some v\<rparr>)
                 | Some w \<Rightarrow> (case bold of None \<Rightarrow> run3 | Some v \<Rightarrow> run3\<lparr>r_bold := Some v\<rparr>)\<lparr>r_italic := Some w\<rparr>)"
    by blast
  note ff = set_run_fonts_frame[OF f]
  note cf = set_run_color_frame[OF c]
  have fn: "en_font = None \<and> zh_font = None \<longrightarrow> run1 = run"
    using f by (auto simp add: set_run_fonts_def)
  show ?thesis
    using ff cf fn by (auto simp add: r split: option.splits)
qed

lemma set_run_attribute_pair:
  assumes w: "map_of nsmap (str ''w'') = Some uri"
    and "set_run_attribute nsmap run (Some (str ''w:eastAsia'')) (Some font) font_size color bold italic = (None, run')"
  shows "Font_name nsmap run' = Some font \<and> Font_east_asia nsmap run' = Some font"
proof -
  from set_run_attribute_steps[OF assms(2)] obtain run1 run3 where
    f: "set_run_fonts nsmap run (Some (str ''w:eastAsia'')) (Some font) = (None, run1)" and
    c: "set_run_color (case font_size of None \<Rightarrow> run1
                         | Some points \<Rightarrow> run1\<lparr>r_size := Some (Pt points)\<rparr>) color = (None, run3)" and
    r: "run' = (case italic of None \<Rightarrow> (case bold of None \<Rightarrow> run3 | Some v \<Rightarrow> run3\<lparr>r_bold := Some v\<rparr>)
                 | Some w \<Rightarrow> (case bold of None \<Rightarrow> run3 | Some v \<Rightarrow> run3\<lparr>r_bold := Some v\<rparr>)\<lparr>r_italic := Some w\<rparr>)"
    by blast
  from set_run_fonts_pair[OF w, of run font] f
  have n1: "Font_name nsmap run1 = Some font" "Font_east_asia nsmap run1 = Some font" by auto
  have "r_rFonts run' = r_rFonts run1"
    using set_run_color_frame[OF c] by (auto simp add: r split: option.splits)
  from Font_reads_rFonts[OF this, of nsmap] n1 show ?thesis by simp
qed

lemma set_run_attribute_returns:
  assumes w: "map_of nsmap (str ''w'') = Some uri"
    and col: "color = None \<or> (\<exists>r g b. color = Some (ColorTuple [r, g, b]) \<and> 0 \<le> r \<and> r \<le> 255
          \<and> 0 \<le> g \<and> g \<le> 255 \<and> 0 \<le> b \<and> b \<le> 255)"
  shows "fst (set_run_attribute nsmap run (Some (str ''w:eastAsia'')) (Some font) font_size color bold italic) = None"
    and "fst (set_run_attribute nsmap run None None font_size color bold italic) = None"
proof -
  obtain run1 where f: "set_run_fonts nsmap run (Some (str ''w:eastAsia'')) (Some font) = (None, run1)"
    using set_run_fonts_pair[OF w, of run font] by blast
  have c: "\<And>x e y. set_run_color x color \<noteq> (Some e, y)"
    using col by (auto simp add: set_run_color_def RGBColor_def)
  show "fst (set_run_attribute nsmap run (Some (str ''w:eastAsia'')) (Some font) font_size color bold italic) = None"
    using c by (auto simp add: set_run_attribute_def f Let_def split: prod.splits option.splits)
  show "fst (set_run_attribute nsmap run None None font_size color bold italic) = None"
    using c by (auto simp add: set_run_attribute_def set_run_fonts_none Let_def split: prod.splits option.splits)
qed

text \<open>
  C6, as amended. When \<open>set_run_attribute\<close> returns, the text of the run is as
  before, and so are its size, colour, bold and italic wherever that parameter is
  \<open>None\<close>; the font attributes are as before when \<open>en_font\<close> and \<open>zh_font\<close> are
  both \<open>None\<close>. With \<open>en_font\<close> the tag \<open>w:eastAsia\<close> and a font given as
  \<open>zh_font\<close>, the font name and the east-Asian override both become that font. The
  call returns in these two cases when no colour is passed.
\<close>

theorem set_run_attribute_untouched:
  assumes "map_of nsmap (str ''w'') = Some uri"
  shows "(\<forall>run'. set_run_attribute nsmap run en_font zh_font font_size color bold italic
                  = (None, run') \<longrightarrow>
            r_text run' = r_text run
          \<and> (font_size = None \<longrightarrow> r_size run' = r_size run)
          \<and> (color = None \<longrightarrow> r_color run' = r_color run)
          \<and> (bold = None \<longrightarrow> r_bold run' = r_bold run)
          \<and> (italic = None \<longrightarrow> r_italic run' = r_italic run)
          \<and> (en_font = None \<and> zh_font = None \<longrightarrow> r_rFonts run' = r_rFonts run)
          \<and> (\<forall>font. en_font = Some (str ''w:eastAsia'') \<and> zh_font = Some font \<longrightarrow>
                Font_name nsmap run' = Some font \<and> Font_east_asia nsmap run' = Some font))
     \<and> (\<forall>font. fst (set_run_attribute nsmap run (Some (str ''w:eastAsia'')) (Some font)
                       font_size None bold italic) = None)
     \<and> fst (set_run_attribute nsmap run None None font_size None bold italic) = None"
proof (intro conjI allI impI)
  fix run'
  assume r: "set_run_attribute nsmap run en_font zh_font font_size color bold italic = (None, run')"
  note fr = set_run_attribute_frame[OF r]
  show "r_text run' = r_text run" using fr by simp
  { assume "font_size = None" then show "r_size run' = r_size run" using fr by simp }
  { assume "color = None" then show "r_color run' = r_color run" using fr by simp }
  { assume "bold = None" then show "r_bold run' = r_bold run" using fr by simp }
  { assume "italic = None" then show "r_italic run' = r_italic run" using fr by simp }
  { assume "en_font = None \<and> zh_font = None"
    then show "r_rFonts run' = r_rFonts run" using fr by simp }
  { fix font
    assume f: "en_font = Some (str ''w:eastAsia'') \<and> zh_font = Some font"
    with r have "set_run_attribute nsmap run (Some (str ''w:eastAsia'')) (Some font)
        font_size color bold italic = (None, run')" by simp
    from set_run_attribute_pair[OF assms this]
    show "Font_name nsmap run' = Some font" and "Font_east_asia nsmap run' = Some font"
      by simp_all }
next
  fix font
  show "fst (set_run_attribute nsmap run (Some (str ''w:eastAsia'')) (Some font)
                       font_size None bold italic) = None"
    by (rule set_run_attribute_returns(1)[OF assms]) simp
next
  show "fst (set_run_attribute nsmap run None None font_size None bold italic) = None"
    by (rule set_run_attribute_returns(2)[OF assms]) simp
qed

theorem set_run_attribute_untouched_witness:
  "\<exists>run'. set_run_attribute ex_nsmap ex_run (Some (str ''w:eastAsia'')) (Some (str ''Arial''))
              None None (Some True) None = (None, run')
     \<and> r_text run' = r_text ex_run \<and> r_size run' = r_size ex_run
     \<and> r_color run' = r_color ex_run \<and> r_italic run' = r_italic ex_run
     \<and> Font_name ex_nsmap run' = Some (str ''Arial'')
     \<and> Font_east_asia ex_nsmap run' = Some (str ''Arial'')"
proof -
  have w: "map_of ex_nsmap (str ''w'') = Some (str ''urn:w'')" by (simp add: ex_nsmap_def)
  note inst = set_run_attribute_untouched[OF w, of ex_run "Some (str ''w:eastAsia'')"
      "Some (str ''Arial'')" None None "Some True" None]
  obtain e run' where r: "set_run_attribute ex_nsmap ex_run (Some (str ''w:eastAsia''))
      (Some (str ''Arial'')) None None (Some True) None = (e, run')"
    by (cases "set_run_attribute ex_nsmap ex_run (Some (str ''w:eastAsia''))
      (Some (str ''Arial'')) None None (Some True) None")
  have "fst (set_run_attribute ex_nsmap ex_run (Some (str ''w:eastAsia''))
      (Some (str ''Arial'')) None None (Some True) None) = None"
    using inst by blast
  then have "e = None" by (simp add: r)
  with r inst show ?thesis by simp
qed

text \<open>
  C6 as stated fails: \<open>en_font\<close> and \<open>zh_font\<close> left absent are not \<open>None\<close>
  but their defaults, so a call that passes only \<open>bold\<close> gives the run the default
  font name and east-Asian override, which the run did not have.
\<close>

theorem set_run_attribute_default_fonts_counterexample:
  "fst (set_run_attribute ex_nsmap ex_run default_en_font default_zh_font None
         None (Some True) None) = None
   \<and> Font_name ex_nsmap (snd (set_run_attribute ex_nsmap ex_run default_en_font default_zh_font None
         None (Some True) None)) \<noteq> Font_name ex_nsmap ex_run
   \<and> Font_east_asia ex_nsmap (snd (set_run_attribute ex_nsmap ex_run default_en_font default_zh_font None
         None (Some True) None)) \<noteq> Font_east_asia ex_nsmap ex_run"
proof -
  have w: "map_of ex_nsmap (str ''w'') = Some (str ''urn:w'')" by (simp add: ex_nsmap_def)
  obtain e r' where r: "set_run_attribute ex_nsmap ex_run default_en_font default_zh_font None
         None (Some True) None = (e, r')" by (cases "set_run_attribute ex_nsmap ex_run default_en_font default_zh_font None
         None (Some True) None")
  have "e = None"
    using set_run_attribute_returns(1)[OF w, of None ex_run "[0x5FAE, 0x8F6F, 0x96C5, 0x9ED1]" None "Some True" None] r
    by (simp add: default_en_font_def default_zh_font_def)
  with r have r2: "set_run_attribute ex_nsmap ex_run (Some (str ''w:eastAsia'')) (Some [0x5FAE, 0x8F6F, 0x96C5, 0x9ED1]) None
         None (Some True) None = (None, r')"
    by (simp add: default_en_font_def default_zh_font_def)
  from set_run_attribute_pair[OF w r2] have "Font_name ex_nsmap r' = default_zh_font" "Font_east_asia ex_nsmap r' = default_zh_font"
    by (simp_all add: default_zh_font_def)
  moreover have "Font_name ex_nsmap ex_run = None" "Font_east_asia ex_nsmap ex_run = None"
    by (simp_all add: Font_name_def Font_east_asia_def rFonts_attribute_def ex_run_def new_run_def)
  ultimately show ?thesis using r \<open>e = None\<close> by (simp add: default_zh_font_def)
qed

section \<open>The two writings of a colour (style.py)\<close>

lemma hex_char_props:
  assumes "v < 16"
  shows "\<not> py_isspace (hex_char up v)" "hex_char up v \<noteq> 45" "hex_char up v \<noteq> 43"
    "hex_char up v \<noteq> 95" "hex_char up v \<noteq> 120" "hex_char up v \<noteq> 88"
    "hex_digit (hex_char up v) = Some v"
  using assms by (auto simp add: hex_char_def py_isspace_def hex_digit_def)

lemma py_int16_hex2:
  assumes "0 \<le> n" "n \<le> 255"
  shows "py_int16 (hex2 up n) = Inr n"
proof -
  let ?a = "nat n div 16" and ?c = "nat n mod 16"
  have a: "?a < 16" using assms by (simp add: div_less_iff_less_mult)
  have c: "?c < 16" by simp
  have strip: "py_strip [hex_char up ?a, hex_char up ?c] = [hex_char up ?a, hex_char up ?c]"
    by (simp add: py_strip_def hex_char_props[OF a] hex_char_props[OF c])
  have pre: "strip_prefix_0x [hex_char up ?a, hex_char up ?c] = [hex_char up ?a, hex_char up ?c]"
    by (simp add: strip_prefix_0x_def hex_char_props[OF c])
  have dig: "hex_digits 0 False [hex_char up ?a, hex_char up ?c] = Some (16 * ?a + ?c)"
    by (simp add: hex_char_props[OF a] hex_char_props[OF c])
  have val: "int (16 * ?a + ?c) = n" using assms by simp
  have "py_int16 (hex2 up n) = Inr (int (16 * ?a + ?c))"
    unfolding py_int16_def hex2_def strip Let_def
    by (simp add: hex_char_props[OF a] pre dig del: hex_digits.simps)
  then show ?thesis by (simp only: val)
qed

lemma from_string_hex6:
  assumes "0 \<le> r" "r \<le> 255" "0 \<le> g" "g \<le> 255" "0 \<le> b" "b \<le> 255"
  shows "RGBColor_from_string (hex6 up r g b) = Inr (r, g, b)"
proof -
  have l: "length (hex2 up r) = 2" "length (hex2 up g) = 2" by (simp_all add: hex2_def)
  have t1: "take 2 (hex6 up r g b) = hex2 up r" by (simp add: hex6_def l)
  have t2: "take 2 (drop 2 (hex6 up r g b)) = hex2 up g" by (simp add: hex6_def l)
  have t3: "drop 4 (hex6 up r g b) = hex2 up b" by (simp add: hex6_def l)
  show ?thesis
    using assms by (simp add: RGBColor_from_string_def t1 t2 t3 py_int16_hex2 RGBColor_def)
qed

lemma set_run_color_same:
  assumes "0 \<le> r" "r \<le> 255" "0 \<le> g" "g \<le> 255" "0 \<le> b" "b \<le> 255"
  shows "set_run_color run (Some (ColorTuple [r, g, b])) = (None, run\<lparr>r_color := Some (r, g, b)\<rparr>)"
    "set_run_color run (Some (ColorStr (hex6 up r g b))) = (None, run\<lparr>r_color := Some (r, g, b)\<rparr>)"
  using assms by (simp_all add: set_run_color_def from_string_hex6 RGBColor_def)

text \<open>
  C7. For \<open>r, g, b\<close> from 0 to 255, \<open>set_run_attribute\<close> with the tuple
  \<open>(r, g, b)\<close> and with its six hexadecimal digits (upper or lower case) as the
  colour, the other arguments equal, give the same outcome; when the call returns,
  the colour of the run reads \<open>(r, g, b)\<close>; and with nothing but the colour to set
  the call returns the run with exactly that colour changed.
\<close>

theorem set_run_attribute_color_encodings:
  assumes "0 \<le> r" "r \<le> 255" "0 \<le> g" "g \<le> 255" "0 \<le> b" "b \<le> 255"
  shows "set_run_attribute nsmap run en_font zh_font font_size (Some (ColorTuple [r, g, b])) bold italic
       = set_run_attribute nsmap run en_font zh_font font_size (Some (ColorStr (hex6 up r g b))) bold italic
     \<and> (\<forall>run'. set_run_attribute nsmap run en_font zh_font font_size
                   (Some (ColorTuple [r, g, b])) bold italic = (None, run')
           \<longrightarrow> r_color run' = Some (r, g, b))
     \<and> set_run_attribute nsmap run None None None (Some (ColorTuple [r, g, b])) None None
         = (None, run\<lparr>r_color := Some (r, g, b)\<rparr>)
     \<and> set_run_attribute nsmap run None None None (Some (ColorStr (hex6 up r g b))) None None
         = (None, run\<lparr>r_color := Some (r, g, b)\<rparr>)"
proof (intro conjI allI impI)
  show "set_run_attribute nsmap run en_font zh_font font_size (Some (ColorTuple [r, g, b])) bold italic
       = set_run_attribute nsmap run en_font zh_font font_size (Some (ColorStr (hex6 up r g b))) bold italic"
    by (simp add: set_run_attribute_def Let_def set_run_color_same[OF assms]
        split: prod.split option.split)
next
  fix run'
  assume "set_run_attribute nsmap run en_font zh_font font_size
                   (Some (ColorTuple [r, g, b])) bold italic = (None, run')"
  then show "r_color run' = Some (r, g, b)"
    by (auto simp add: set_run_attribute_def set_run_color_same[OF assms] Let_def
        split: prod.splits option.splits)
next
  show "set_run_attribute nsmap run None None None (Some (ColorTuple [r, g, b])) None None
         = (None, run\<lparr>r_color := Some (r, g, b)\<rparr>)"
    by (simp add: set_run_attribute_def set_run_fonts_def set_run_color_same[OF assms])
next
  show "set_run_attribute nsmap run None None None (Some (ColorStr (hex6 up r g b))) None None
         = (None, run\<lparr>r_color := Some (r, g, b)\<rparr>)"
    by (simp add: set_run_attribute_def set_run_fonts_def set_run_color_same[OF assms])
qed

theorem set_run_attribute_color_encodings_witness:
  "set_run_attribute ex_nsmap ex_run None None None (Some (ColorTuple [255, 0, 0])) None None
     = (None, ex_run\<lparr>r_color := Some (255, 0, 0)\<rparr>)
   \<and> set_run_attribute ex_nsmap ex_run None None None (Some (ColorStr (str ''FF0000''))) None None
     = (None, ex_run\<lparr>r_color := Some (255, 0, 0)\<rparr>)
   \<and> set_run_attribute ex_nsmap ex_run default_en_font default_zh_font None
        (Some (ColorTuple [255, 0, 0])) None None
     = set_run_attribute ex_nsmap ex_run default_en_font default_zh_font None
        (Some (ColorStr (str ''FF0000''))) None None"
proof -
  have h: "hex6 True 255 0 0 = str ''FF0000''"
    by (simp add: hex6_def hex2_def hex_char_def str_def)
  have b: "(0::int) \<le> 255" "(255::int) \<le> 255" "(0::int) \<le> 0" "(0::int) \<le> 255" by simp_all
  note plain = set_run_attribute_color_encodings[OF b(1) b(2) b(3) b(4) b(3) b(4),
        where nsmap = ex_nsmap and run = ex_run and en_font = None and zh_font = None
          and font_size = None and bold = None and italic = None and up = True,
        unfolded h]
  note dflt = set_run_attribute_color_encodings[OF b(1) b(2) b(3) b(4) b(3) b(4),
        where nsmap = ex_nsmap and run = ex_run and en_font = default_en_font
          and zh_font = default_zh_font and font_size = None and bold = None
          and italic = None and up = True,
        unfolded h]
  from plain have
    "set_run_attribute ex_nsmap ex_run None None None (Some (ColorTuple [255, 0, 0])) None None
       = (None, ex_run\<lparr>r_color := Some (255, 0, 0)\<rparr>)"
    "set_run_attribute ex_nsmap ex_run None None None (Some (ColorStr (str ''FF0000''))) None None
       = (None, ex_run\<lparr>r_color := Some (255, 0, 0)\<rparr>)"
    by blast+
  moreover from dflt have
    "set_run_attribute ex_nsmap ex_run default_en_font default_zh_font None
        (Some (ColorTuple [255, 0, 0])) None None
     = set_run_attribute ex_nsmap ex_run default_en_font default_zh_font None
        (Some (ColorStr (str ''FF0000''))) None None"
    by blast
  ultimately show ?thesis by blast
qed

section \<open>Reading and writing through references\<close>

lemma Table_cells_update_cell_gen:
  "Table_cells (Table_update_cell t k f) = (Table_cells t)[k := f (Table_cells t ! k)]"
  by (simp add: Table_cells_def Table_update_cell_def concat_update_nth_cell)

lemma Document_table_update_table:
  "Document_table (Document_update_table d ti g) ti'
     = (if ti' = ti then map_option g (Document_table d ti) else Document_table d ti')"
  by (cases "body d ! ti") (auto simp add: Document_update_table_def nth_list_update)

lemma Document_table_update_top:
  "Document_table (d\<lparr>body := (body d)[i := block_update_paragraph f (body d ! i)]\<rparr>) ti
     = Document_table d ti"
  by (cases "body d ! i"; cases "ti = i") (auto simp add: nth_list_update)

lemma Document_paragraph_update_same:
  "Document_paragraph (Document_update_paragraph d p f) p = map_option f (Document_paragraph d p)"
proof (cases p)
  case (TopPara i)
  then show ?thesis
    by (auto split: if_splits block.splits)
next
  case (CellPara ti ci j)
  then show ?thesis
    by (auto simp add: Document_table_update_table Table_cells_update_cell_gen
        simp del: Document_table.simps split: option.splits if_splits)
qed

lemma Document_paragraph_update_other:
  "p' \<noteq> p \<Longrightarrow>
   Document_paragraph (Document_update_paragraph d p f) p' = Document_paragraph d p'"
proof (cases p; cases p')
  fix i i' assume "p = TopPara i" "p' = TopPara i'" "p' \<noteq> p"
  then show ?thesis by (auto simp add: nth_list_update)
next
  fix i ti ci j assume "p = TopPara i" "p' = CellPara ti ci j"
  then show ?thesis
    by (simp add: Document_table_update_top del: Document_table.simps)
next
  fix i ti ci j assume a: "p = CellPara ti ci j" "p' = TopPara i"
  show ?thesis
    using a by (cases "body d ! ti"; cases "i = ti")
      (auto simp add: Document_update_table_def nth_list_update)
next
  fix ti ci j ti' ci' j' assume a: "p = CellPara ti ci j" "p' = CellPara ti' ci' j'" "p' \<noteq> p"
  then show ?thesis
    by (cases "ti' = ti"; cases "ci' = ci")
      (auto simp add: Document_table_update_table Table_cells_update_cell_gen nth_list_update
        simp del: Document_table.simps split: option.splits)
qed

lemma Document_run_update_same:
  "Document_run (Document_update_run d r f) r = map_option f (Document_run d r)"
  by (cases r) (auto simp add: Document_paragraph_update_same split: option.splits)

lemma Document_run_update_other:
  "r' \<noteq> r \<Longrightarrow> Document_run (Document_update_run d r f) r' = Document_run d r'"
proof (cases r; cases r')
  fix p k p' k' assume a: "r = RunRef p k" "r' = RunRef p' k'" "r' \<noteq> r"
  show ?thesis
  proof (cases "p' = p")
    case True
    then have k: "k' \<noteq> k" using a by simp
    show ?thesis using a True k
      by (auto simp add: Document_paragraph_update_same split: option.splits)
  next
    case False
    then show ?thesis using a by (simp add: Document_paragraph_update_other)
  qed
qed

section \<open>Replacing text in the cached runs (doc_decorate.py)\<close>

lemma py_in_sublist: "py_in key t = sublist key t"
  by (induction t) (auto simp add: sublist_Cons_right)



lemma replace_keys_same:
  "Document_run (replace_keys context keys r d) r
     = map_option (\<lambda>x. x\<lparr>r_text := fold (key_step context) keys (r_text x)\<rparr>) (Document_run d r)"
proof (induction keys arbitrary: d)
  case Nil
  then show ?case by (cases "Document_run d r") simp_all
next
  case (Cons key keys)
  show ?case
  proof (cases "Document_run d r")
    case None
    then show ?thesis
      by (simp add: Cons.IH Run_text_def Run_set_text_def Document_run_update_same)
  next
    case (Some x)
    then show ?thesis
      by (simp add: Cons.IH Run_text_def Run_set_text_def Document_run_update_same key_step_def)
  qed
qed

lemma replace_keys_other:
  "r' \<noteq> r \<Longrightarrow> Document_run (replace_keys context keys r d) r' = Document_run d r'"
  by (induction keys arbitrary: d) (simp_all add: Run_set_text_def Document_run_update_other)

lemma replace_runs_other:
  "r \<notin> set rs \<Longrightarrow> Document_run (replace_runs context rs d) r = Document_run d r"
  by (induction rs arbitrary: d) (auto simp add: replace_keys_other)

lemma replace_runs_member:
  "distinct rs \<Longrightarrow> r \<in> set rs \<Longrightarrow>
   Document_run (replace_runs context rs d) r
     = map_option (\<lambda>x. x\<lparr>r_text := fold (key_step context) (dict_keys context) (r_text x)\<rparr>)
         (Document_run d r)"
proof (induction rs arbitrary: d)
  case Nil
  then show ?case by simp
next
  case (Cons a rs)
  show ?case
  proof (cases "r = a")
    case True
    then have "r \<notin> set rs" using Cons.prems by simp
    then show ?thesis using True by (simp add: replace_runs_other replace_keys_same)
  next
    case False
    then show ?thesis using Cons by (simp add: replace_keys_other)
  qed
qed

lemma fold_key_step_items:
  assumes "distinct (map fst context)"
  shows "set items \<subseteq> set context \<Longrightarrow>
     fold (key_step context) (map fst items) t = rewrite_text items t"
proof (induction items arbitrary: t)
  case Nil
  then show ?case by simp
next
  case (Cons kv items)
  obtain key v where kv: "kv = (key, v)" by (cases kv)
  have "(key, v) \<in> set context" using Cons.prems kv by simp
  then have "map_of context key = Some v" using assms by simp
  then have g: "dict_get context key = v" by (simp add: dict_get_def)
  show ?case using Cons kv by (simp add: key_step_def g py_in_sublist)
qed

lemma fold_key_step_rewrite:
  "distinct (map fst context) \<Longrightarrow>
   fold (key_step context) (dict_keys context) t = rewrite_text context t"
  using fold_key_step_items[of "context" "context" t] by (simp add: dict_keys_def)

lemma rewrite_text_no_key:
  "\<forall>kv \<in> set items. \<not> sublist (fst kv) t \<Longrightarrow> rewrite_text items t = t"
  by (induction items t rule: rewrite_text.induct) auto

lemma runs_validD:
  "runs_valid self \<Longrightarrow> distinct (dd_runs self)"
  "runs_valid self \<Longrightarrow> r \<in> set (dd_runs self) \<Longrightarrow> \<exists>x. Document_run (dd_doc self) r = Some x"
  by (auto simp add: runs_valid_def list_all_iff)

text \<open>
  C3. For a mapping (each key once) and a facade whose cached runs are distinct runs
  of its document, \<open>replace(mapping)\<close> leaves the cached list as it is and rewrites
  the text of every cached run: the items are taken in the mapping's iteration order,
  and each key that is a substring of the run's text at that moment is replaced in
  it by the stringified value. Nothing else of the run changes, a run that contains
  no key is left unchanged, and so is every run outside the cached list.
\<close>

theorem replace_rewrites_cached_runs:
  assumes "distinct (map fst context)" and "runs_valid self"
  shows "dd_runs (replace self context) = dd_runs self
     \<and> (\<forall>r \<in> set (dd_runs self).
           (\<exists>x. Document_run (dd_doc self) r = Some x
              \<and> Document_run (dd_doc (replace self context)) r
                  = Some (x\<lparr>r_text := rewrite_text context (r_text x)\<rparr>))
         \<and> Run_text (dd_doc (replace self context)) r
              = rewrite_text context (Run_text (dd_doc self) r)
         \<and> ((\<forall>key \<in> set (dict_keys context). \<not> sublist key (Run_text (dd_doc self) r))
              \<longrightarrow> Document_run (dd_doc (replace self context)) r = Document_run (dd_doc self) r))
     \<and> (\<forall>r. r \<notin> set (dd_runs self)
           \<longrightarrow> Document_run (dd_doc (replace self context)) r = Document_run (dd_doc self) r)"
proof (intro conjI ballI allI impI)
  show "dd_runs (replace self context) = dd_runs self" by (simp add: replace_def)
next
  fix r assume r: "r \<in> set (dd_runs self)"
  from runs_validD(2)[OF assms(2) r] obtain x where x: "Document_run (dd_doc self) r = Some x" ..
  have after: "Document_run (dd_doc (replace self context)) r
      = Some (x\<lparr>r_text := rewrite_text context (r_text x)\<rparr>)"
    using replace_runs_member[OF runs_validD(1)[OF assms(2)] r, of "context" "dd_doc self"]
    by (simp add: replace_def x fold_key_step_rewrite[OF assms(1)])
  show "\<exists>x. Document_run (dd_doc self) r = Some x
              \<and> Document_run (dd_doc (replace self context)) r
                  = Some (x\<lparr>r_text := rewrite_text context (r_text x)\<rparr>)"
    using x after by blast
  show "Run_text (dd_doc (replace self context)) r
              = rewrite_text context (Run_text (dd_doc self) r)"
    by (simp add: Run_text_def x after)
  { assume "\<forall>key \<in> set (dict_keys context). \<not> sublist key (Run_text (dd_doc self) r)"
    then have "rewrite_text context (r_text x) = r_text x"
      by (intro rewrite_text_no_key) (simp add: dict_keys_def Run_text_def x)
    then show "Document_run (dd_doc (replace self context)) r = Document_run (dd_doc self) r"
      by (simp add: after x) }
next
  fix r assume "r \<notin> set (dd_runs self)"
  then show "Document_run (dd_doc (replace self context)) r = Document_run (dd_doc self) r"
    by (simp add: replace_def replace_runs_other)
qed

lemma ex_runs: "get_all_runs ex_marker_document = [RunRef (TopPara 0) 0, RunRef (TopPara 0) 1, RunRef (TopPara 2) 0,
   RunRef (CellPara 1 0 0) 0, RunRef (CellPara 1 1 0) 0, RunRef (CellPara 1 2 0) 0]"
  by (simp add: get_all_runs_def get_all_paragraphs_def get_paragraphs_def Document_paragraphs_def
      get_paragraphs_in_tables_def get_cells_in_tables_def get_tables_def Document_tables_def
      get_cells_in_table_def get_table_row_length_def Table_rows_def Table_row_cell_refs_def
      Table_row_cells_def Table_cells_def paragraph_run_refs_def
      ex_marker_document_def ex_table3_def text_cell_def new_paragraph_def str_def
      upt_conv_Cons)

lemma ex_facade_runs:
  "dd_runs ex_facade = [RunRef (TopPara 0) 0, RunRef (TopPara 0) 1, RunRef (TopPara 2) 0,
     RunRef (CellPara 1 0 0) 0, RunRef (CellPara 1 1 0) 0, RunRef (CellPara 1 2 0) 0]"
  "dd_doc ex_facade = ex_marker_document"
  by (simp_all add: ex_facade_def DocDecorate_init_def ex_runs)

lemma ex_texts:
  "map (Run_text ex_marker_document) (dd_runs ex_facade)
     = [str ''foobar123'', str ''marker'', str ''tail'', str ''a'', str ''b'', str ''c'']"
  by (simp add: ex_facade_runs Run_text_def ex_marker_document_def ex_table3_def text_cell_def
      new_paragraph_def new_run_def Table_cells_def str_def)

lemma ex_valid: "runs_valid ex_facade"
  by (simp add: runs_valid_def ex_facade_runs ex_marker_document_def ex_table3_def text_cell_def
      new_paragraph_def new_run_def Table_cells_def str_def)

lemma rewrite_foo: "rewrite_text [(str ''foo'', PStr (str ''bar''))] (str ''foobar123'') = str ''barbar123''"
  by (simp add: py_in_sublist[symmetric] str_def)

theorem replace_rewrites_cached_runs_witness:
  "Run_text (dd_doc (replace ex_facade [(str ''foo'', PStr (str ''bar''))])) (RunRef (TopPara 0) 0)
     = str ''barbar123''
   \<and> Document_run (dd_doc (replace ex_facade [(str ''foo'', PStr (str ''bar''))])) (RunRef (TopPara 0) 1)
     = Document_run (dd_doc ex_facade) (RunRef (TopPara 0) 1)"
proof -
  have d: "distinct (map fst [(str ''foo'', PStr (str ''bar''))])" by simp
  note inst = replace_rewrites_cached_runs[OF d ex_valid]
  have m0: "RunRef (TopPara 0) 0 \<in> set (dd_runs ex_facade)"
    and m1: "RunRef (TopPara 0) 1 \<in> set (dd_runs ex_facade)"
    by (simp_all add: ex_facade_runs)
  have t0: "Run_text (dd_doc ex_facade) (RunRef (TopPara 0) 0) = str ''foobar123''"
    and t1: "Run_text (dd_doc ex_facade) (RunRef (TopPara 0) 1) = str ''marker''"
    using ex_texts by (simp_all add: ex_facade_runs)
  have nokey: "\<forall>key \<in> set (dict_keys [(str ''foo'', PStr (str ''bar''))]).
      \<not> sublist key (Run_text (dd_doc ex_facade) (RunRef (TopPara 0) 1))"
    unfolding t1 by (simp add: dict_keys_def py_in_sublist[symmetric] str_def)
  from inst m0 have "Run_text (dd_doc (replace ex_facade [(str ''foo'', PStr (str ''bar''))])) (RunRef (TopPara 0) 0)
     = rewrite_text [(str ''foo'', PStr (str ''bar''))] (Run_text (dd_doc ex_facade) (RunRef (TopPara 0) 0))"
    by blast
  then have a: "Run_text (dd_doc (replace ex_facade [(str ''foo'', PStr (str ''bar''))])) (RunRef (TopPara 0) 0)
     = str ''barbar123''" by (simp only: t0 rewrite_foo)
  from inst m1 nokey have b: "Document_run (dd_doc (replace ex_facade [(str ''foo'', PStr (str ''bar''))])) (RunRef (TopPara 0) 1)
     = Document_run (dd_doc ex_facade) (RunRef (TopPara 0) 1)"
    by blast
  from a b show ?thesis by simp
qed

section \<open>Deleting a run (doc_decorate.py)\<close>

lemma delete_run_loop_absent:
  "\<forall>q \<in> set rs. Run_text (dd_doc self) q \<noteq> t \<Longrightarrow> delete_run_loop self t rs = self"
  by (induction rs) auto

lemma delete_run_loop_first:
  "\<forall>q \<in> set pre. Run_text (dd_doc self) q \<noteq> t \<Longrightarrow> Run_text (dd_doc self) r = t \<Longrightarrow>
   delete_run_loop self t (pre @ r # post)
     = self\<lparr>dd_doc := Run_set_text (dd_doc self) r [], dd_runs := remove1 r (dd_runs self)\<rparr>"
  by (induction pre) auto

lemma Run_text_other:
  "q \<noteq> r \<Longrightarrow> Run_text (Run_set_text d r s) q = Run_text d q"
  by (simp add: Run_text_def Run_set_text_def Document_run_update_other)

text \<open>
  C5, as amended. For a facade whose cached runs are distinct runs of its document:
  when no cached run has the text, \<open>delete_run(text)\<close> changes nothing. Otherwise
  the first cached run with exactly that text is taken out of the cached list, and
  in the document its text becomes the empty string: the run itself stays in its
  paragraph, and every other run is unchanged. When no later cached run has that
  text either, a second call changes nothing more.
\<close>

theorem delete_run_blanks_first_match:
  assumes "runs_valid self"
  shows "((\<forall>q \<in> set (dd_runs self). Run_text (dd_doc self) q \<noteq> t) \<longrightarrow> delete_run self t = self)
     \<and> (\<forall>pre r post.
           dd_runs self = pre @ r # post
           \<and> (\<forall>q \<in> set pre. Run_text (dd_doc self) q \<noteq> t) \<and> Run_text (dd_doc self) r = t
           \<longrightarrow>
             dd_runs (delete_run self t) = pre @ post
           \<and> (\<exists>x. Document_run (dd_doc self) r = Some x
                \<and> Document_run (dd_doc (delete_run self t)) r = Some (x\<lparr>r_text := []\<rparr>))
           \<and> (\<forall>q. q \<noteq> r \<longrightarrow>
                 Document_run (dd_doc (delete_run self t)) q = Document_run (dd_doc self) q)
           \<and> ((\<forall>q \<in> set post. Run_text (dd_doc self) q \<noteq> t)
                \<longrightarrow> delete_run (delete_run self t) t = delete_run self t))"
proof (intro conjI allI impI)
  assume "\<forall>q \<in> set (dd_runs self). Run_text (dd_doc self) q \<noteq> t"
  then show "delete_run self t = self"
    by (simp add: delete_run_def delete_run_loop_absent)
next
  fix pre r post
  assume a: "dd_runs self = pre @ r # post
           \<and> (\<forall>q \<in> set pre. Run_text (dd_doc self) q \<noteq> t) \<and> Run_text (dd_doc self) r = t"
  then have runs: "dd_runs self = pre @ r # post"
    and pre: "\<forall>q \<in> set pre. Run_text (dd_doc self) q \<noteq> t"
    and r: "Run_text (dd_doc self) r = t" by simp_all
  have dist: "distinct (pre @ r # post)" using runs_validD(1)[OF assms] runs by simp
  then have notin: "r \<notin> set pre" "r \<notin> set post" by auto
  have rem: "remove1 r (pre @ r # post) = pre @ post"
    using notin(1) by (simp add: remove1_append)
  have res: "delete_run self t
      = self\<lparr>dd_doc := Run_set_text (dd_doc self) r [], dd_runs := pre @ post\<rparr>"
    using delete_run_loop_first[OF pre r, of post] by (simp add: delete_run_def runs rem)
  show "dd_runs (delete_run self t) = pre @ post" by (simp add: res)
  have "r \<in> set (dd_runs self)" by (simp add: runs)
  from runs_validD(2)[OF assms this] obtain x where x: "Document_run (dd_doc self) r = Some x" ..
  show "\<exists>x. Document_run (dd_doc self) r = Some x
                \<and> Document_run (dd_doc (delete_run self t)) r = Some (x\<lparr>r_text := []\<rparr>)"
    using x by (simp add: res Run_set_text_def Document_run_update_same)
  show "\<And>q. q \<noteq> r \<Longrightarrow> Document_run (dd_doc (delete_run self t)) q = Document_run (dd_doc self) q"
    by (simp add: res Run_set_text_def Document_run_update_other)
  { assume post: "\<forall>q \<in> set post. Run_text (dd_doc self) q \<noteq> t"
    have "\<forall>q \<in> set (dd_runs (delete_run self t)). Run_text (dd_doc (delete_run self t)) q \<noteq> t"
    proof
      fix q assume "q \<in> set (dd_runs (delete_run self t))"
      then have q: "q \<in> set pre \<or> q \<in> set post" by (simp add: res)
      then have "q \<noteq> r" using notin by auto
      then have "Run_text (dd_doc (delete_run self t)) q = Run_text (dd_doc self) q"
        by (simp add: res Run_text_other)
      then show "Run_text (dd_doc (delete_run self t)) q \<noteq> t" using q pre post by auto
    qed
    then show "delete_run (delete_run self t) t = delete_run self t"
      by (simp add: delete_run_def delete_run_loop_absent) }
qed

theorem delete_run_blanks_first_match_witness:
  "dd_runs (delete_run ex_facade (str ''marker''))
     = [RunRef (TopPara 0) 0, RunRef (TopPara 2) 0,
        RunRef (CellPara 1 0 0) 0, RunRef (CellPara 1 1 0) 0, RunRef (CellPara 1 2 0) 0]
   \<and> delete_run (delete_run ex_facade (str ''marker'')) (str ''marker'')
     = delete_run ex_facade (str ''marker'')
   \<and> delete_run ex_facade (str ''absent'') = ex_facade"
proof -
  note inst = delete_run_blanks_first_match[OF ex_valid]
  let ?pre = "[RunRef (TopPara 0) 0]" and ?r = "RunRef (TopPara 0) 1"
  let ?post = "[RunRef (TopPara 2) 0,
        RunRef (CellPara 1 0 0) 0, RunRef (CellPara 1 1 0) 0, RunRef (CellPara 1 2 0) 0]"
  have texts: "map (Run_text (dd_doc ex_facade)) (dd_runs ex_facade)
     = [str ''foobar123'', str ''marker'', str ''tail'', str ''a'', str ''b'', str ''c'']"
    using ex_texts by (simp add: ex_facade_runs(2))
  have h: "dd_runs ex_facade = ?pre @ ?r # ?post
      \<and> (\<forall>q \<in> set ?pre. Run_text (dd_doc ex_facade) q \<noteq> str ''marker'')
      \<and> Run_text (dd_doc ex_facade) ?r = str ''marker''"
    using texts by (simp add: ex_facade_runs(1) str_def)
  have hp: "\<forall>q \<in> set ?post. Run_text (dd_doc ex_facade) q \<noteq> str ''marker''"
    using texts by (simp add: ex_facade_runs(1) str_def)
  have ha: "\<forall>q \<in> set (dd_runs ex_facade). Run_text (dd_doc ex_facade) q \<noteq> str ''absent''"
    using texts by (simp add: ex_facade_runs(1) str_def)
  from inst[of "str ''marker''"] h hp
  have "dd_runs (delete_run ex_facade (str ''marker'')) = ?pre @ ?post"
    "delete_run (delete_run ex_facade (str ''marker'')) (str ''marker'')
     = delete_run ex_facade (str ''marker'')"
    by blast+
  moreover from inst[of "str ''absent''"] ha
  have "delete_run ex_facade (str ''absent'') = ex_facade" by blast
  ultimately show ?thesis by simp
qed

text \<open>
  C5 as stated fails: after \<open>delete_run\<close> the run is gone from the cached list but
  not from the document, whose runs are the same as before, the deleted one among
  them with an empty text.
\<close>

theorem delete_run_keeps_run_counterexample:
  "get_all_runs (dd_doc (delete_run ex_facade (str ''marker''))) = get_all_runs (dd_doc ex_facade)
   \<and> RunRef (TopPara 0) 1 \<in> set (get_all_runs (dd_doc (delete_run ex_facade (str ''marker''))))
   \<and> Document_run (dd_doc (delete_run ex_facade (str ''marker''))) (RunRef (TopPara 0) 1)
       = Some (new_run [])
   \<and> RunRef (TopPara 0) 1 \<notin> set (dd_runs (delete_run ex_facade (str ''marker'')))"
proof -
  have texts: "map (Run_text (dd_doc ex_facade)) (dd_runs ex_facade)
     = [str ''foobar123'', str ''marker'', str ''tail'', str ''a'', str ''b'', str ''c'']"
    using ex_texts by (simp add: ex_facade_runs(2))
  have p: "\<forall>q \<in> set [RunRef (TopPara 0) 0]. Run_text (dd_doc ex_facade) q \<noteq> str ''marker''"
    and r: "Run_text (dd_doc ex_facade) (RunRef (TopPara 0) 1) = str ''marker''"
    using texts by (simp_all add: ex_facade_runs(1) str_def)
  have res: "delete_run ex_facade (str ''marker'')
     = ex_facade\<lparr>dd_doc := Run_set_text (dd_doc ex_facade) (RunRef (TopPara 0) 1) [],
         dd_runs := remove1 (RunRef (TopPara 0) 1) (dd_runs ex_facade)\<rparr>"
    using delete_run_loop_first[OF p r, of "[RunRef (TopPara 2) 0,
        RunRef (CellPara 1 0 0) 0, RunRef (CellPara 1 1 0) 0, RunRef (CellPara 1 2 0) 0]"]
    by (simp add: delete_run_def ex_facade_runs(1))
  have doc': "Run_set_text (dd_doc ex_facade) (RunRef (TopPara 0) 1) []
     = \<lparr>body = [BParagraph \<lparr>p_runs = [new_run (str ''foobar123''), new_run []], p_style = None\<rparr>,
      BTable ex_table3, BParagraph (new_paragraph (str ''tail'') None)]\<rparr>"
    by (simp add: ex_facade_runs(2) Run_set_text_def ex_marker_document_def new_run_def)
  have all': "get_all_runs \<lparr>body = [BParagraph \<lparr>p_runs = [new_run (str ''foobar123''), new_run []], p_style = None\<rparr>,
      BTable ex_table3, BParagraph (new_paragraph (str ''tail'') None)]\<rparr>
      = [RunRef (TopPara 0) 0, RunRef (TopPara 0) 1, RunRef (TopPara 2) 0,
   RunRef (CellPara 1 0 0) 0, RunRef (CellPara 1 1 0) 0, RunRef (CellPara 1 2 0) 0]"
    by (simp add: get_all_runs_def get_all_paragraphs_def get_paragraphs_def Document_paragraphs_def
      get_paragraphs_in_tables_def get_cells_in_tables_def get_tables_def Document_tables_def
      get_cells_in_table_def get_table_row_length_def Table_rows_def Table_row_cell_refs_def
      Table_row_cells_def Table_cells_def paragraph_run_refs_def
      ex_table3_def text_cell_def new_paragraph_def str_def
      upt_conv_Cons)
  have d1: "dd_doc (delete_run ex_facade (str ''marker''))
     = \<lparr>body = [BParagraph \<lparr>p_runs = [new_run (str ''foobar123''), new_run []], p_style = None\<rparr>,
      BTable ex_table3, BParagraph (new_paragraph (str ''tail'') None)]\<rparr>"
    by (simp add: res doc' del: One_nat_def)
  have r1: "dd_runs (delete_run ex_facade (str ''marker''))
     = [RunRef (TopPara 0) 0, RunRef (TopPara 2) 0,
        RunRef (CellPara 1 0 0) 0, RunRef (CellPara 1 1 0) 0, RunRef (CellPara 1 2 0) 0]"
    by (simp add: res ex_facade_runs(1))
  show ?thesis
    unfolding d1 r1 all' by (simp add: ex_facade_runs(2) ex_runs)
qed

section \<open>The facades that the constructor and the two methods produce are sound\<close>

text \<open>
  The theorems on \<open>replace\<close> and \<open>delete_run\<close> speak of a facade whose cached runs
  are distinct runs of its document. Every facade is such a one when it is
  constructed, and \<open>replace\<close> and \<open>delete_run\<close> keep it so.
\<close>

lemma distinct_concat_map:
  assumes "distinct xs" and "\<And>x. x \<in> set xs \<Longrightarrow> distinct (f x)"
    and "\<And>x y. x \<in> set xs \<Longrightarrow> y \<in> set xs \<Longrightarrow> x \<noteq> y \<Longrightarrow> set (f x) \<inter> set (f y) = {}"
  shows "distinct (concat (map f xs))"
  using assms by (induction xs) fastforce+

lemma paragraph_indices_bounds: "k \<in> set (paragraph_indices i bs) \<Longrightarrow> i \<le> k"
  by (induction i bs rule: paragraph_indices.induct) (auto dest: Suc_leD)

lemma distinct_paragraph_indices: "distinct (paragraph_indices i bs)"
  by (induction i bs rule: paragraph_indices.induct) (auto dest: paragraph_indices_bounds)

lemma table_indices_bounds: "k \<in> set (table_indices i bs) \<Longrightarrow> i \<le> k"
  by (induction i bs rule: table_indices.induct) (auto dest: Suc_leD)

lemma distinct_table_indices: "distinct (table_indices i bs)"
  by (induction i bs rule: table_indices.induct) (auto dest: table_indices_bounds)

lemma Table_row_cell_refs_range:
  "x \<in> set (Table_row_cell_refs t i) \<Longrightarrow> i * t_grid_cols t \<le> x \<and> x < i * t_grid_cols t + t_grid_cols t"
  by (auto simp add: Table_row_cell_refs_def Table_row_cells_def)

lemma distinct_Table_row_cell_refs: "distinct (Table_row_cell_refs t i)"
  by (simp add: Table_row_cell_refs_def distinct_map inj_on_def)

lemma rows_disjoint:
  assumes "i \<noteq> (j::nat)"
  shows "set (Table_row_cell_refs t i) \<inter> set (Table_row_cell_refs t j) = {}"
proof (rule ccontr)
  assume "set (Table_row_cell_refs t i) \<inter> set (Table_row_cell_refs t j) \<noteq> {}"
  then obtain x where x: "x \<in> set (Table_row_cell_refs t i)" "x \<in> set (Table_row_cell_refs t j)"
    by auto
  let ?c = "t_grid_cols t"
  from Table_row_cell_refs_range[OF x(1)] Table_row_cell_refs_range[OF x(2)]
  have b: "i * ?c \<le> x" "x < i * ?c + ?c" "j * ?c \<le> x" "x < j * ?c + ?c" by auto
  have "i < j \<or> j < i" using assms by auto
  then show False
  proof
    assume "i < j"
    then have "Suc i \<le> j" by simp
    then have "Suc i * ?c \<le> j * ?c" by (rule mult_le_mono1)
    then show False using b by simp
  next
    assume "j < i"
    then have "Suc j \<le> i" by simp
    then have "Suc j * ?c \<le> i * ?c" by (rule mult_le_mono1)
    then show False using b by simp
  qed
qed

lemma distinct_get_cells_in_table: "distinct (get_cells_in_table t)"
  unfolding get_cells_in_table_def
  by (rule distinct_concat_map) (auto simp add: distinct_Table_row_cell_refs rows_disjoint)

lemma distinct_get_cells_in_tables: "distinct (get_cells_in_tables d)"
  unfolding get_cells_in_tables_def
  by (rule distinct_concat_map)
     (auto simp add: get_tables_def Document_tables_def distinct_table_indices
        distinct_get_cells_in_table distinct_map inj_on_def split: option.splits)

lemma distinct_get_paragraphs_in_tables: "distinct (get_paragraphs_in_tables d)"
  unfolding get_paragraphs_in_tables_def
proof (rule distinct_concat_map)
  show "distinct (get_cells_in_tables d)" by (rule distinct_get_cells_in_tables)
next
  fix x :: cell_ref show "distinct (cell_paragraph_refs d x)"
    by (cases x) (auto simp add: distinct_map inj_on_def split: option.splits simp del: Document_cell.simps)
next
  fix x y :: cell_ref assume "x \<noteq> y"
  then show "set (cell_paragraph_refs d x) \<inter> set (cell_paragraph_refs d y) = {}"
    by (cases x; cases y) (auto split: option.splits simp del: Document_cell.simps)
qed

lemma in_get_paragraphs_in_tables:
  "p \<in> set (get_paragraphs_in_tables d) \<Longrightarrow> \<exists>ti ci j. p = CellPara ti ci j"
  unfolding get_paragraphs_in_tables_def
proof -
  assume "p \<in> set (concat (map (cell_paragraph_refs d) (get_cells_in_tables d)))"
  then obtain x where "p \<in> set (cell_paragraph_refs d x)" by auto
  then show ?thesis
    by (cases x) (auto split: option.splits simp del: Document_cell.simps)
qed

lemma distinct_get_all_paragraphs: "distinct (get_all_paragraphs d)"
  by (auto simp add: get_all_paragraphs_def get_paragraphs_def Document_paragraphs_def
      distinct_map inj_on_def distinct_paragraph_indices distinct_get_paragraphs_in_tables
      dest: in_get_paragraphs_in_tables)

lemma distinct_get_all_runs: "distinct (get_all_runs d)"
  unfolding get_all_runs_def
  by (rule distinct_concat_map)
     (auto simp add: distinct_get_all_paragraphs paragraph_run_refs_def distinct_map inj_on_def
        split: option.splits)

lemma get_all_runs_resolve:
  assumes "r \<in> set (get_all_runs d)"
  shows "Document_run d r \<noteq> None"
proof -
  from assms obtain p where "r \<in> set (paragraph_run_refs d p)"
    by (auto simp add: get_all_runs_def)
  then show ?thesis
    by (cases "Document_paragraph d p") (auto simp add: paragraph_run_refs_def)
qed

lemma runs_valid_init: "runs_valid (DocDecorate_init d)"
  using get_all_runs_resolve[of _ d]
  by (auto simp add: runs_valid_def DocDecorate_init_def distinct_get_all_runs list_all_iff)

lemma replace_keys_resolves:
  "(Document_run (replace_keys context keys r d) q = None) = (Document_run d q = None)"
  by (cases "q = r") (simp_all add: replace_keys_same replace_keys_other)

lemma replace_runs_resolves:
  "(Document_run (replace_runs context rs d) q = None) = (Document_run d q = None)"
  by (induction rs arbitrary: d) (simp_all add: replace_keys_resolves)

lemma runs_valid_replace: "runs_valid self \<Longrightarrow> runs_valid (replace self context)"
  by (simp add: runs_valid_def replace_def list_all_iff replace_runs_resolves)

lemma Run_set_text_resolves:
  "(Document_run (Run_set_text d r s) q = None) = (Document_run d q = None)"
  by (cases "q = r") (simp_all add: Run_set_text_def Document_run_update_same Document_run_update_other)

lemma delete_run_loop_valid:
  "runs_valid self \<Longrightarrow> runs_valid (delete_run_loop self t rs)"
  by (induction rs) (auto simp add: runs_valid_def list_all_iff Run_set_text_resolves)

lemma runs_valid_delete_run: "runs_valid self \<Longrightarrow> runs_valid (delete_run self t)"
  by (simp add: delete_run_def delete_run_loop_valid)

end
